theory Spec2Isabelle
  imports Main
begin

section \<open>The screen recorder's main controller\<close>

text \<open>
  A shallow embedding of \<^verbatim>\<open>src/presentation/popup/popup.js\<close>, the controller that asks for
  the microphone, asks for a display capture, mixes the audio, records, and releases
  everything again. The module's top-level variables, the few DOM properties it writes and
  the part of the browser it talks to are the fields of one state record; every function of
  the source is a function on that state.

  Embedded are \<^verbatim>\<open>logStatus\<close>, \<^verbatim>\<open>stopAllTracks\<close>, \<^verbatim>\<open>getSupportedMimeType\<close>,
  \<^verbatim>\<open>checkMicPermissionState\<close>, \<^verbatim>\<open>showMicDeniedUI\<close>,
  \<^verbatim>\<open>createCombinedStreamUsingAudioContext\<close>, \<^verbatim>\<open>attachDisplayEndHandlers\<close> with its two
  handlers, \<^verbatim>\<open>handleRecorderStop\<close>, \<^verbatim>\<open>cleanupRecordingResources\<close>,
  \<^verbatim>\<open>startRecordingFlow\<close> with the recorder's \<^verbatim>\<open>ondataavailable\<close>, and
  \<^verbatim>\<open>stopRecordingFlow\<close>. Left out are the preferences, the meeting banner, the window
  handling (minimising, restoring, the persistent window, auto-start, closing), the
  recorder's \<^verbatim>\<open>onerror\<close>, which only sets the status, and what happens to a finished
  blob after it has been given to the \<^verbatim>\<open>FileReader\<close>. The elements of the page that the
  controller looks up are taken to exist. At the end, two pieces of the other controllers
  kept in the repository are embedded as well: the mixer of the earlier \<^verbatim>\<open>popup.js\<close> and
  \<^verbatim>\<open>startRecorder\<close> of \<^verbatim>\<open>src/shared/recorder/recorder.ts\<close>.
\<close>

subsection \<open>Values\<close>

text \<open>
  A value caught by a \<^verbatim>\<open>catch\<close> clause. The source reads \<^verbatim>\<open>err.name\<close>,
  \<^verbatim>\<open>err.constructor.name\<close> and \<^verbatim>\<open>err.message\<close> and otherwise converts the value to
  a string. A property that is missing or empty is the empty string here: the source only
  tests these properties for truthiness, and both are falsy. \<open>Falsy\<close> is a thrown value that
  is itself falsy (\<^verbatim>\<open>null\<close>, \<^verbatim>\<open>undefined\<close>), with its rendering as a string.
\<close>

datatype thrown =
    Falsy string
  | ErrorObj (err_name: string) (err_constructor_name: string) (err_message: string) (err_string: string)

datatype track_kind = Audio | Video

text \<open>
  A \<^verbatim>\<open>MediaStream\<close>: its tracks in the order they were added, each a kind and the identity
  of the track, and the two properties the controller attaches to stream objects.
  Tracks are shared between streams (the display's video track is also put into the
  combined stream), so a track's \<^verbatim>\<open>readyState\<close> lives in the state, not in the stream.
\<close>

record media_stream =
  tracks :: "(track_kind \<times> nat) list"
  audioContext :: "nat option"
  audioDestination :: "nat option"
  shareEndPollId :: "nat option"

record blob =
  bytes :: "nat list"
  blob_type :: string

datatype recording_state = Inactive | Recording | Paused

text \<open>
  A \<^verbatim>\<open>MediaRecorder\<close>: its \<^verbatim>\<open>state\<close>, the options it was constructed with, and
  whether the browser has queued its \<^verbatim>\<open>stop\<close> event and not delivered it yet.
\<close>

record media_recorder =
  rec_state :: recording_state
  rec_mimeType :: "string option"
  stop_queued :: bool

text \<open>The calls into the browser that change something outside the module.\<close>

datatype call =
    GetUserMedia
  | PermissionsQuery
  | ConfirmDialog
  | GetDisplayMedia bool
  | AddEndedListener nat
  | SetInterval nat
  | ClearInterval nat
  | NewAudioContext
  | CreateMediaStreamDestination nat
  | CreateMediaStreamSource nat "nat list"
  | ContextClose nat
  | TrackStop nat
  | IsTypeSupported string
  | NewMediaRecorder "string option"
  | RecorderStart
  | RecorderStop
  | NewBlob

datatype console_entry = ConsoleWarn string | ConsoleError string

text \<open>
  The state. \<open>recorder\<close> to \<open>micStream\<close> are the module's variables. The next group is
  the DOM: the two buttons, the status line, the instructions box and the preview element.
  Then the browser: which tracks are live, which audio contexts are open, which interval
  timers are registered (each with the track its callback watches), which tracks carry the
  controller's \<^verbatim>\<open>ended\<close> listener, a counter for fresh identities, and \<open>throws\<close>, which
  says for each call whether the browser throws there and what. Last, what an observer
  sees: the calls made, in order, the warnings and errors written to the console
  (\<^verbatim>\<open>console.log\<close> lines are not recorded), the blobs handed on for preview, and alerts.
\<close>

record state =
  recorder :: "media_recorder option"
  recordedChunks :: "blob list"
  combinedStream :: "media_stream option"
  displayStream :: "media_stream option"
  micStream :: "media_stream option"
  startBtn_disabled :: bool
  stopBtn_disabled :: bool
  status :: string
  settingsInstructions_shown :: bool
  settingsInstructions_text :: string
  preview_srcObject :: "media_stream option"
  preview_muted :: bool
  liveTracks :: "nat set"
  openContexts :: "nat set"
  intervals :: "(nat \<times> nat) list"
  endedListeners :: "nat list"
  nextId :: nat
  throws :: "call \<Rightarrow> thrown option"
  calls :: "call list"
  console :: "console_entry list"
  artifacts :: "blob list"
  alerts :: "string list"

subsection \<open>Normal and exceptional completion\<close>

text \<open>
  A JavaScript function either returns or throws, and what it did to the state before
  throwing stays done.
\<close>

datatype 'a result = Returns 'a state | Throws thrown state

type_synonym outcome = "unit result"

fun state_of :: "'a result \<Rightarrow> state" where
  "state_of (Returns v s) = s"
| "state_of (Throws e s) = s"

fun andThen :: "'a result \<Rightarrow> ('a \<Rightarrow> state \<Rightarrow> 'b result) \<Rightarrow> 'b result" where
  "andThen (Returns v s) f = f v s"
| "andThen (Throws e s) f = Throws e s"

text \<open>\<^verbatim>\<open>try { body } catch (e) { handler }\<close>\<close>

fun tryCatch :: "'a result \<Rightarrow> (thrown \<Rightarrow> state \<Rightarrow> 'a result) \<Rightarrow> 'a result" where
  "tryCatch (Returns v s) h = Returns v s"
| "tryCatch (Throws e s) h = h e s"

text \<open>A sequence of statements.\<close>

fun block :: "(state \<Rightarrow> outcome) list \<Rightarrow> state \<Rightarrow> outcome" where
  "block [] s = Returns () s"
| "block (f # fs) s = andThen (f s) (\<lambda>_. block fs)"

text \<open>\<^verbatim>\<open>xs.forEach(f)\<close>\<close>

fun forEach :: "('a \<Rightarrow> state \<Rightarrow> outcome) \<Rightarrow> 'a list \<Rightarrow> state \<Rightarrow> outcome" where
  "forEach f [] s = Returns () s"
| "forEach f (x # xs) s = andThen (f x s) (\<lambda>_. forEach f xs)"

subsection \<open>The browser\<close>

text \<open>
  A call into the browser is recorded, and then either throws, as \<open>throws\<close> says, or has
  its effect.
\<close>

definition platform_call :: "call \<Rightarrow> (state \<Rightarrow> state) \<Rightarrow> state \<Rightarrow> outcome" where
  "platform_call c effect s =
     (let s' = s\<lparr>calls := calls s @ [c]\<rparr>
      in case throws s c of
           Some e \<Rightarrow> Throws e s'
         | None \<Rightarrow> Returns () (effect s'))"

text \<open>\<^verbatim>\<open>track.stop()\<close>: the track's \<^verbatim>\<open>readyState\<close> becomes \<^verbatim>\<open>'ended'\<close>.\<close>

definition track_stop :: "nat \<Rightarrow> state \<Rightarrow> outcome" where
  "track_stop t = platform_call (TrackStop t) (\<lambda>s. s\<lparr>liveTracks := liveTracks s - {t}\<rparr>)"

text \<open>\<^verbatim>\<open>audioContext.close()\<close>\<close>

definition audioContext_close :: "nat \<Rightarrow> state \<Rightarrow> outcome" where
  "audioContext_close c = platform_call (ContextClose c) (\<lambda>s. s\<lparr>openContexts := openContexts s - {c}\<rparr>)"

text \<open>\<^verbatim>\<open>clearInterval(id)\<close>\<close>

definition clearInterval :: "nat \<Rightarrow> state \<Rightarrow> outcome" where
  "clearInterval i = platform_call (ClearInterval i) (\<lambda>s. s\<lparr>intervals := filter (\<lambda>p. fst p \<noteq> i) (intervals s)\<rparr>)"

definition console_warn :: "string \<Rightarrow> state \<Rightarrow> outcome" where
  "console_warn msg s = Returns () (s\<lparr>console := console s @ [ConsoleWarn msg]\<rparr>)"

definition console_error :: "string \<Rightarrow> state \<Rightarrow> outcome" where
  "console_error msg s = Returns () (s\<lparr>console := console s @ [ConsoleError msg]\<rparr>)"

definition getTracks :: "media_stream \<Rightarrow> nat list" where
  "getTracks st = map snd (tracks st)"

definition getAudioTracks :: "media_stream \<Rightarrow> nat list" where
  "getAudioTracks st = map snd (filter (\<lambda>t. fst t = Audio) (tracks st))"

text \<open>The audio tracks of a stream that may be null.\<close>

definition audioOf :: "media_stream option \<Rightarrow> nat list" where
  "audioOf stream = (case stream of None \<Rightarrow> [] | Some st \<Rightarrow> getAudioTracks st)"

definition getVideoTracks :: "media_stream \<Rightarrow> nat list" where
  "getVideoTracks st = map snd (filter (\<lambda>t. fst t = Video) (tracks st))"

subsection \<open>Utility functions\<close>

definition logStatus :: "string \<Rightarrow> state \<Rightarrow> outcome" where
  "logStatus msg s = Returns () (s\<lparr>status := msg\<rparr>)"

text \<open>
  \<^verbatim>\<open>stopAllTracks(stream)\<close>: nothing for a null stream; otherwise every track is stopped,
  each inside its own \<^verbatim>\<open>try\<close>, and the iteration inside another.
\<close>

definition stopAllTracks :: "media_stream option \<Rightarrow> state \<Rightarrow> outcome" where
  "stopAllTracks stream s =
     (case stream of
        None \<Rightarrow> Returns () s
      | Some st \<Rightarrow>
          tryCatch
            (forEach (\<lambda>track s. tryCatch (track_stop track s)
                                  (\<lambda>e. console_warn ''Error stopping track:''))
               (getTracks st) s)
            (\<lambda>e. console_warn ''Error iterating tracks:''))"

subsection \<open>Teardown\<close>

text \<open>
  \<^verbatim>\<open>cleanupRecordingResources()\<close>. A timer identity is tested for truthiness before it is
  cleared, so the identity 0 would not be cleared.
\<close>

definition cleanupRecordingResources :: "state \<Rightarrow> outcome" where
  "cleanupRecordingResources =
     block
       [(\<lambda>s. case combinedStream s of
               None \<Rightarrow> Returns () s
             | Some cs \<Rightarrow>
                 (case audioContext cs of
                    None \<Rightarrow> Returns () s
                  | Some c \<Rightarrow> tryCatch (audioContext_close c s)
                               (\<lambda>e. console_warn ''Error closing audio context:''))),
        (\<lambda>s. stopAllTracks (combinedStream s) s),
        (\<lambda>s. tryCatch
               (case displayStream s of
                  None \<Rightarrow> Returns () s
                | Some ds \<Rightarrow>
                    (case shareEndPollId ds of
                       None \<Rightarrow> Returns () s
                     | Some p \<Rightarrow> if p = 0 then Returns () s else clearInterval p s))
               (\<lambda>e. console_warn ''Error clearing poll interval:'')),
        (\<lambda>s. stopAllTracks (displayStream s) s),
        (\<lambda>s. stopAllTracks (micStream s) s),
        (\<lambda>s. Returns () (s\<lparr>combinedStream := None, displayStream := None, micStream := None\<rparr>)),
        (\<lambda>s. Returns () (s\<lparr>preview_srcObject := None\<rparr>))]"

subsection \<open>What the user and the browser answer during start-up\<close>

text \<open>
  One run of \<^verbatim>\<open>startRecordingFlow\<close> reads the two checkboxes and awaits the browser
  several times. \<open>env\<close> holds the answers: the result of \<^verbatim>\<open>getUserMedia\<close>, the
  Permissions API (absent, or the result of its query: the \<^verbatim>\<open>state\<close> of the returned
  status, \<open>None\<close> when there is no status or no state), the answer to the
  \<^verbatim>\<open>confirm\<close> dialog, the result of \<^verbatim>\<open>getDisplayMedia\<close>,
  \<^verbatim>\<open>MediaRecorder.isTypeSupported\<close> (absent, or a predicate), and the audio tracks of the
  stream of a newly created \<^verbatim>\<open>MediaStreamAudioDestinationNode\<close>.
\<close>

record env =
  includeSystemAudio :: bool
  includeMic :: bool
  getUserMedia :: "thrown + media_stream"
  permissions :: "(thrown + string option) option"
  confirm :: bool
  getDisplayMedia :: "thrown + media_stream"
  isTypeSupported :: "(string \<Rightarrow> bool) option"
  destinationTracks :: "nat list"

text \<open>Awaiting a promise of the browser: the call is recorded; a rejection is thrown.\<close>

definition await :: "call \<Rightarrow> thrown + 'a \<Rightarrow> state \<Rightarrow> 'a result" where
  "await c answer s =
     (let s' = s\<lparr>calls := calls s @ [c]\<rparr>
      in case answer of Inl e \<Rightarrow> Throws e s' | Inr v \<Rightarrow> Returns v s')"

text \<open>
  \<^verbatim>\<open>getUserMedia\<close> and \<^verbatim>\<open>getDisplayMedia\<close>: the tracks of the stream obtained are live.
\<close>

definition acquire :: "call \<Rightarrow> thrown + media_stream \<Rightarrow> state \<Rightarrow> media_stream result" where
  "acquire c answer s =
     andThen (await c answer s)
       (\<lambda>stream s. Returns stream (s\<lparr>liveTracks := liveTracks s \<union> set (getTracks stream)\<rparr>))"

definition confirm_dialog :: "env \<Rightarrow> state \<Rightarrow> bool result" where
  "confirm_dialog env s = Returns (confirm env) (s\<lparr>calls := calls s @ [ConfirmDialog]\<rparr>)"

subsection \<open>Media recorder configuration\<close>

definition candidates :: "string list" where
  "candidates =
     [''video/webm;codecs=vp9,opus'',
      ''video/webm;codecs=vp8,opus'',
      ''video/webm;codecs=vp9'',
      ''video/webm'']"

text \<open>
  \<^verbatim>\<open>MediaRecorder.isTypeSupported && MediaRecorder.isTypeSupported(mimeType)\<close>
\<close>

definition isTypeSupported_query :: "env \<Rightarrow> string \<Rightarrow> state \<Rightarrow> bool result" where
  "isTypeSupported_query env mimeType s =
     (case isTypeSupported env of
        None \<Rightarrow> Returns False s
      | Some supported \<Rightarrow>
          andThen (platform_call (IsTypeSupported mimeType) (\<lambda>s. s) s)
            (\<lambda>_. Returns (supported mimeType)))"

text \<open>
  The loop of \<^verbatim>\<open>getSupportedMimeType\<close> over the candidates that are left; the empty
  string when none is supported.
\<close>

fun firstSupported :: "env \<Rightarrow> string list \<Rightarrow> state \<Rightarrow> string result" where
  "firstSupported env [] s =
     andThen (console_warn ''No preferred MIME types supported, using default'' s)
       (\<lambda>_. Returns [])"
| "firstSupported env (mimeType # rest) s =
     andThen
       (tryCatch (isTypeSupported_query env mimeType s)
          (\<lambda>e s. andThen (console_warn ''Error checking MIME type:'' s) (\<lambda>_. Returns False)))
       (\<lambda>supported s. if supported then Returns mimeType s else firstSupported env rest s)"

definition getSupportedMimeType :: "env \<Rightarrow> state \<Rightarrow> string result" where
  "getSupportedMimeType env = firstSupported env candidates"

subsection \<open>Permission management\<close>

definition checkMicPermissionState :: "env \<Rightarrow> state \<Rightarrow> string option result" where
  "checkMicPermissionState env s =
     (case permissions env of
        None \<Rightarrow>
          andThen (console_warn ''Permissions API not available'' s) (\<lambda>_. Returns None)
      | Some answer \<Rightarrow>
          tryCatch (await PermissionsQuery answer s)
            (\<lambda>e s. andThen (console_warn ''Error checking microphone permission:'' s)
                     (\<lambda>_. Returns None)))"

definition instructions :: string where
  "instructions =
     ''Microphone access is blocked.'' @ [CHR 0x0A] @
     ''1) Open chrome://settings/content/microphone'' @ [CHR 0x0A] @
     ''2) Allow microphone for this profile or site'' @ [CHR 0x0A] @
     ''3) Re-open this extension and start again.''"

definition showMicDeniedUI :: "state \<Rightarrow> outcome" where
  "showMicDeniedUI =
     block
       [(\<lambda>s. Returns () (s\<lparr>settingsInstructions_shown := True,
                             settingsInstructions_text := instructions\<rparr>)),
        logStatus ''Microphone permission denied. See instructions below.'']"

subsection \<open>Audio mixing\<close>

text \<open>\<^verbatim>\<open>new AudioContext()\<close>: a fresh context, open.\<close>

definition new_AudioContext :: "state \<Rightarrow> nat result" where
  "new_AudioContext s =
     andThen (platform_call NewAudioContext
                (\<lambda>s. s\<lparr>openContexts := insert (nextId s) (openContexts s),
                         nextId := Suc (nextId s)\<rparr>) s)
       (\<lambda>_. Returns (nextId s))"

text \<open>
  \<^verbatim>\<open>audioContext.createMediaStreamDestination()\<close>: a fresh destination node; the audio
  tracks of its stream are live. The result is the node and those tracks. Creating the
  node does not throw.
\<close>

definition createMediaStreamDestination :: "env \<Rightarrow> nat \<Rightarrow> state \<Rightarrow> (nat \<times> nat list) result" where
  "createMediaStreamDestination env audioCtx s =
     Returns (nextId s, destinationTracks env)
       (s\<lparr>calls := calls s @ [CreateMediaStreamDestination audioCtx],
           liveTracks := liveTracks s \<union> set (destinationTracks env),
           nextId := Suc (nextId s)\<rparr>)"

text \<open>
  The inner function \<^verbatim>\<open>connectAudioSource(stream)\<close>. Creating the source node and
  connecting it to the destination is one recorded call.
\<close>

definition connectAudioSource :: "nat \<Rightarrow> media_stream option \<Rightarrow> state \<Rightarrow> outcome" where
  "connectAudioSource audioCtx stream s =
     (case stream of
        None \<Rightarrow> Returns () s
      | Some st \<Rightarrow>
          if getAudioTracks st = [] then Returns () s
          else tryCatch
                 (platform_call (CreateMediaStreamSource audioCtx (getAudioTracks st)) (\<lambda>s. s) s)
                 (\<lambda>e. console_warn ''Could not create MediaStreamSource:''))"

definition typeError :: thrown where
  "typeError = ErrorObj ''TypeError'' ''TypeError'' ''Cannot read properties of null'' ''TypeError: Cannot read properties of null''"

text \<open>
  \<^verbatim>\<open>createCombinedStreamUsingAudioContext(displayStream, micStream)\<close>, with \<open>display\<close>
  and \<open>mic\<close> for its two parameters. Reading the video tracks of a null display stream
  throws.
\<close>

definition createCombinedStreamUsingAudioContext ::
    "env \<Rightarrow> media_stream option \<Rightarrow> media_stream option \<Rightarrow> state \<Rightarrow> media_stream result" where
  "createCombinedStreamUsingAudioContext env display mic s =
     (case display of
        None \<Rightarrow> Throws typeError s
      | Some ds \<Rightarrow>
          (let outputStream =
                 \<lparr>tracks = (case getVideoTracks ds of [] \<Rightarrow> [] | videoTrack # _ \<Rightarrow> [(Video, videoTrack)]),
                  audioContext = None, audioDestination = None, shareEndPollId = None\<rparr>;
               hasDisplayAudio = (length (getAudioTracks ds) > 0);
               hasMicAudio = (case mic of None \<Rightarrow> False | Some ms \<Rightarrow> length (getAudioTracks ms) > 0)
           in if \<not> hasDisplayAudio \<and> \<not> hasMicAudio then Returns outputStream s
              else
                andThen (new_AudioContext s) (\<lambda>audioCtx s.
                andThen (createMediaStreamDestination env audioCtx s) (\<lambda>destination s.
                andThen (connectAudioSource audioCtx display s) (\<lambda>_ s.
                andThen (if hasMicAudio then connectAudioSource audioCtx mic s else Returns () s) (\<lambda>_ s.
                  Returns
                    (outputStream
                       \<lparr>tracks := tracks outputStream @
                                   (case snd destination of [] \<Rightarrow> [] | mixedAudioTrack # _ \<Rightarrow> [(Audio, mixedAudioTrack)]),
                        audioContext := Some audioCtx,
                        audioDestination := Some (fst destination)\<rparr>)
                    s))))))"

subsection \<open>Screen share end detection\<close>

text \<open>
  \<^verbatim>\<open>attachDisplayEndHandlers(displayStream)\<close>. The parameter is the object the module's
  variable \<^verbatim>\<open>displayStream\<close> refers to at the only call, so storing the timer on it is an
  update of that variable's stream. The timer's identity is positive, as the browser's are.
  Registering a listener and a timer does not throw.
\<close>

definition attachDisplayEndHandlers :: "media_stream option \<Rightarrow> state \<Rightarrow> outcome" where
  "attachDisplayEndHandlers stream s =
     (case stream of
        None \<Rightarrow> Returns () s
      | Some ds \<Rightarrow>
          (case getVideoTracks ds of
             [] \<Rightarrow> console_warn ''No video track found to monitor'' s
           | videoTrack # _ \<Rightarrow>
               (let pollInterval = Suc (nextId s)
                in Returns ()
                     (s\<lparr>endedListeners := endedListeners s @ [videoTrack],
                         intervals := intervals s @ [(pollInterval, videoTrack)],
                         nextId := Suc (nextId s),
                         calls := calls s @ [AddEndedListener videoTrack, SetInterval pollInterval],
                         displayStream := Some (ds\<lparr>shareEndPollId := Some pollInterval\<rparr>)\<rparr>))))"

subsection \<open>The recorder and blobs of the browser\<close>

text \<open>\<^verbatim>\<open>new MediaRecorder(stream, options)\<close>: a recorder, inactive.\<close>

definition new_MediaRecorder :: "string option \<Rightarrow> state \<Rightarrow> media_recorder result" where
  "new_MediaRecorder options s =
     andThen (platform_call (NewMediaRecorder options) (\<lambda>s. s) s)
       (\<lambda>_. Returns \<lparr>rec_state = Inactive, rec_mimeType = options, stop_queued = False\<rparr>)"

text \<open>\<^verbatim>\<open>recorder.start()\<close>\<close>

definition recorder_start :: "state \<Rightarrow> outcome" where
  "recorder_start s =
     (case recorder s of
        None \<Rightarrow> Throws typeError s
      | Some r \<Rightarrow> platform_call RecorderStart (\<lambda>s. s\<lparr>recorder := Some (r\<lparr>rec_state := Recording\<rparr>)\<rparr>) s)"

text \<open>
  \<^verbatim>\<open>recorder.stop()\<close>: the recorder is inactive at once, and its \<^verbatim>\<open>stop\<close> event is
  queued.
\<close>

definition recorder_stop :: "state \<Rightarrow> outcome" where
  "recorder_stop s =
     (case recorder s of
        None \<Rightarrow> Throws typeError s
      | Some r \<Rightarrow>
          platform_call RecorderStop
            (\<lambda>s. s\<lparr>recorder := Some (r\<lparr>rec_state := Inactive, stop_queued := True\<rparr>)\<rparr>) s)"

text \<open>
  \<^verbatim>\<open>new Blob(parts, { type })\<close>: the bytes of the parts, one after the other.
\<close>

definition new_Blob :: "blob list \<Rightarrow> string \<Rightarrow> state \<Rightarrow> blob result" where
  "new_Blob parts type s =
     andThen (platform_call NewBlob (\<lambda>s. s) s)
       (\<lambda>_. Returns \<lparr>bytes = concat (map bytes parts), blob_type = type\<rparr>)"

definition alert :: "string \<Rightarrow> state \<Rightarrow> outcome" where
  "alert msg s = Returns () (s\<lparr>alerts := alerts s @ [msg]\<rparr>)"

text \<open>A thrown value converted to a string.\<close>

fun thrownText :: "thrown \<Rightarrow> string" where
  "thrownText (Falsy str) = str"
| "thrownText (ErrorObj n c m str) = str"

text \<open>\<^verbatim>\<open>err && err.message ? err.message : err\<close>, appended to a string.\<close>

fun errorText :: "thrown \<Rightarrow> string" where
  "errorText (Falsy str) = str"
| "errorText (ErrorObj n c m str) = (if m \<noteq> [] then m else str)"

text \<open>\<^verbatim>\<open>try { ... } finally { f }\<close>\<close>

fun tryFinally :: "'a result \<Rightarrow> (state \<Rightarrow> outcome) \<Rightarrow> 'a result" where
  "tryFinally (Returns v s) f = andThen (f s) (\<lambda>_. Returns v)"
| "tryFinally (Throws e s) f = andThen (f s) (\<lambda>_. Throws e)"

subsection \<open>Recording lifecycle: stop and save\<close>

text \<open>\<^verbatim>\<open>startBtn.disabled = false; stopBtn.disabled = true;\<close>\<close>

definition resetUI :: "state \<Rightarrow> outcome" where
  "resetUI s = Returns () (s\<lparr>startBtn_disabled := False, stopBtn_disabled := True\<rparr>)"

text \<open>
  \<^verbatim>\<open>handleRecorderStop()\<close>. The blob is given to a \<^verbatim>\<open>FileReader\<close>, from where it goes to
  storage and the preview page, or to \<^verbatim>\<open>fallbackDownload\<close>; all of that happens later and
  outside the controller's variables, and is the blob's entry in \<open>artifacts\<close> here.
\<close>

definition handleRecorderStop :: "state \<Rightarrow> outcome" where
  "handleRecorderStop s =
     tryFinally
       (tryCatch
          (andThen (new_Blob (recordedChunks s) ''video/webm'' s)
             (\<lambda>blob s. Returns () (s\<lparr>artifacts := artifacts s @ [blob]\<rparr>)))
          (\<lambda>e. block
                 [console_error ''Error processing recording:'',
                  alert (''Recording finished but failed to create preview: '' @ thrownText e)]))
       (block
          [cleanupRecordingResources,
           logStatus ''Recording complete! Preview opened in new tab.'',
           resetUI,
           (\<lambda>s. Returns () (s\<lparr>recordedChunks := []\<rparr>))])"

subsection \<open>Recording lifecycle: stop recording\<close>

text \<open>\<^verbatim>\<open>recorder && recorder.state !== 'inactive'\<close>\<close>

definition recorder_active :: "state \<Rightarrow> bool" where
  "recorder_active s = (case recorder s of None \<Rightarrow> False | Some r \<Rightarrow> rec_state r \<noteq> Inactive)"

definition stopRecordingFlow :: "state \<Rightarrow> outcome" where
  "stopRecordingFlow s =
     (if recorder_active s then
        block
          [logStatus ''Stopping...'',
           (\<lambda>s. tryCatch (recorder_stop s) (\<lambda>e. console_warn ''Error stopping recorder:''))] s
      else
        block
          [cleanupRecordingResources,
           logStatus ''Stopped.'',
           resetUI] s)"

subsection \<open>Recording lifecycle: start recording\<close>

text \<open>
  \<^verbatim>\<open>startRecordingFlow()\<close> returns early in many places, so it is written here as the
  function from each of its numbered steps to its end, the last step first. The
  \<^verbatim>\<open>await\<close>s are not interleaved with other events: both buttons are disabled while the
  flow runs.
\<close>

text \<open>
  The three statements every later failure branch uses to clean up:
  \<^verbatim>\<open>stopAllTracks(combinedStream); stopAllTracks(displayStream); if (micStream) stopAllTracks(micStream);\<close>
  (the branch of step 3 has only the last two).
\<close>

definition stopMicIfAny :: "state \<Rightarrow> outcome" where
  "stopMicIfAny s = (case micStream s of None \<Rightarrow> Returns () s | Some m \<Rightarrow> stopAllTracks (Some m) s)"

text \<open>Step 7: start the recorder.\<close>

definition flow_from_step7 :: "state \<Rightarrow> outcome" where
  "flow_from_step7 s =
     (case recorder_start s of
        Throws err s1 \<Rightarrow>
          block
            [console_error ''recorder.start() failed:'',
             logStatus (''Could not start recorder: '' @ errorText err),
             (\<lambda>s. stopAllTracks (combinedStream s) s),
             (\<lambda>s. stopAllTracks (displayStream s) s),
             stopMicIfAny,
             resetUI] s1
      | Returns _ s1 \<Rightarrow>
          block
            [(\<lambda>s. Returns () (s\<lparr>startBtn_disabled := True, stopBtn_disabled := False\<rparr>)),
             logStatus ''Recording... Click Stop to finish.''] s1)"

text \<open>
  Steps 5 and 6: choose the format, construct the recorder (with the format, or without
  options when the format is the empty string), empty the list of chunks.
\<close>

definition flow_from_step5 :: "env \<Rightarrow> state \<Rightarrow> outcome" where
  "flow_from_step5 env s =
     andThen (getSupportedMimeType env s)
       (\<lambda>mimeType s.
          case new_MediaRecorder (if mimeType \<noteq> [] then Some mimeType else None) s of
            Throws err s1 \<Rightarrow>
              block
                [console_error ''MediaRecorder creation failed:'',
                 logStatus (''Recording failed: '' @ errorText err),
                 (\<lambda>s. stopAllTracks (combinedStream s) s),
                 (\<lambda>s. stopAllTracks (displayStream s) s),
                 stopMicIfAny,
                 resetUI] s1
          | Returns r s1 \<Rightarrow>
              flow_from_step7 (s1\<lparr>recorder := Some r, recordedChunks := []\<rparr>))"

text \<open>Steps 3 and 4: mix, and show the combined stream in the preview.\<close>

definition flow_from_step3 :: "env \<Rightarrow> state \<Rightarrow> outcome" where
  "flow_from_step3 env s =
     (case createCombinedStreamUsingAudioContext env (displayStream s) (micStream s) s of
        Throws err s1 \<Rightarrow>
          block
            [console_error ''Failed to create combined stream:'',
             logStatus (''Failed to prepare audio mixing: '' @ errorText err),
             (\<lambda>s. stopAllTracks (displayStream s) s),
             stopMicIfAny,
             resetUI] s1
      | Returns out s1 \<Rightarrow>
          flow_from_step5 env
            (s1\<lparr>combinedStream := Some out, preview_srcObject := Some out, preview_muted := True\<rparr>))"

text \<open>
  \<^verbatim>\<open>err && (err.name || (err.constructor && err.constructor.name)) || ''\<close>
\<close>

fun errorName :: "thrown \<Rightarrow> string" where
  "errorName (Falsy str) = []"
| "errorName (ErrorObj n c m str) = (if n \<noteq> [] then n else c)"

definition silentErrorNames :: "string list" where
  "silentErrorNames =
     [''AbortError'', ''NotAllowedError'', ''SecurityError'', ''NotFoundError'', ''NotReadableError'']"

definition isUserCancellation :: "thrown \<Rightarrow> bool" where
  "isUserCancellation err = (errorName err \<in> set silentErrorNames)"

text \<open>
  Step 2: ask for the display capture. Minimising the extension's window is not part of
  the state here.
\<close>

definition flow_from_step2 :: "env \<Rightarrow> state \<Rightarrow> outcome" where
  "flow_from_step2 env s =
     (case andThen (acquire (GetDisplayMedia (includeSystemAudio env)) (getDisplayMedia env) s)
             (\<lambda>stream s. let s' = s\<lparr>displayStream := Some stream\<rparr>
                          in attachDisplayEndHandlers (displayStream s') s') of
        Throws err s1 \<Rightarrow>
          block
            [(\<lambda>s. if \<not> isUserCancellation err then
                     block
                       [console_warn ''Display capture failed:'',
                        logStatus (''Failed to start display capture: '' @ errorText err)] s
                   else logStatus ''Ready. Screen sharing was cancelled.'' s),
             (\<lambda>s. case micStream s of
                     None \<Rightarrow> Returns () s
                   | Some m \<Rightarrow>
                       andThen (stopAllTracks (Some m) s)
                         (\<lambda>_ s. Returns () (s\<lparr>micStream := None\<rparr>))),
             resetUI] s1
      | Returns _ s1 \<Rightarrow> flow_from_step3 env s1)"

text \<open>The beginning, and step 1: ask for the microphone.\<close>

definition startRecordingFlow :: "env \<Rightarrow> state \<Rightarrow> outcome" where
  "startRecordingFlow env s0 =
     (let s = s0\<lparr>startBtn_disabled := True, stopBtn_disabled := True,
                 settingsInstructions_shown := False, status := ''Preparing...'',
                 micStream := None\<rparr>
      in if includeMic env then
           (case acquire GetUserMedia (getUserMedia env) s of
              Returns stream s1 \<Rightarrow> flow_from_step2 env (s1\<lparr>micStream := Some stream\<rparr>)
            | Throws err s1 \<Rightarrow>
                andThen (console_error ''Microphone request failed:'' s1) (\<lambda>_ s.
                andThen (checkMicPermissionState env s) (\<lambda>permissionState s.
                  if permissionState = Some ''denied'' then
                    block
                      [showMicDeniedUI,
                       resetUI,
                       logStatus ''Microphone permission is denied.''] s
                  else
                    andThen (confirm_dialog env s) (\<lambda>proceed s.
                      if \<not> proceed then
                        block
                          [logStatus ''Recording cancelled because microphone is required.'',
                           resetUI] s
                      else flow_from_step2 env (s\<lparr>micStream := None\<rparr>)))))
         else flow_from_step2 env s)"

subsection \<open>Events\<close>

text \<open>The recorder's \<^verbatim>\<open>ondataavailable\<close>, given \<^verbatim>\<open>event.data\<close>.\<close>

definition ondataavailable :: "blob option \<Rightarrow> state \<Rightarrow> outcome" where
  "ondataavailable data s =
     (case data of
        None \<Rightarrow> Returns () s
      | Some d \<Rightarrow>
          if length (bytes d) > 0 then Returns () (s\<lparr>recordedChunks := recordedChunks s @ [d]\<rparr>)
          else Returns () s)"

text \<open>The listener for \<^verbatim>\<open>ended\<close> that \<^verbatim>\<open>attachDisplayEndHandlers\<close> puts on the video track.\<close>

definition onVideoTrackEnded :: "state \<Rightarrow> outcome" where
  "onVideoTrackEnded s = (if recorder_active s then stopRecordingFlow s else Returns () s)"

text \<open>
  The callback of the polling timer, for the video track and the timer it was created
  with.
\<close>

definition onPollTick :: "nat \<Rightarrow> nat \<Rightarrow> state \<Rightarrow> outcome" where
  "onPollTick videoTrack pollInterval s =
     (if videoTrack \<notin> liveTracks s then
        andThen (clearInterval pollInterval s)
          (\<lambda>_ s. if recorder_active s then stopRecordingFlow s else Returns () s)
      else Returns () s)"

text \<open>
  What the browser can deliver while a session runs: the display's track ends and the
  \<^verbatim>\<open>ended\<close> event is fired on it; the track ends without the event; a timer fires (only a
  registered one does); the encoder delivers a chunk; the recorder stops by itself, as it
  does when every track of its stream has ended (it is inactive at once and its \<^verbatim>\<open>stop\<close>
  event is queued); the queued \<^verbatim>\<open>stop\<close> event of the recorder is delivered (only a queued
  one is); the user clicks Stop.
\<close>

datatype event =
    TrackEnds nat
  | TrackEndsSilently nat
  | TimerFires nat
  | DataAvailable "blob option"
  | RecorderEndsByItself
  | StopEvent
  | StopClicked

fun deliver :: "event \<Rightarrow> state \<Rightarrow> outcome" where
  "deliver (TrackEnds t) s =
     forEach (\<lambda>_. onVideoTrackEnded) (filter (\<lambda>l. l = t) (endedListeners s))
       (s\<lparr>liveTracks := liveTracks s - {t}\<rparr>)"
| "deliver (TrackEndsSilently t) s = Returns () (s\<lparr>liveTracks := liveTracks s - {t}\<rparr>)"
| "deliver (TimerFires i) s =
     (case map_of (intervals s) i of
        None \<Rightarrow> Returns () s
      | Some videoTrack \<Rightarrow> onPollTick videoTrack i s)"
| "deliver (DataAvailable data) s =
     (case recorder s of None \<Rightarrow> Returns () s | Some r \<Rightarrow> ondataavailable data s)"
| "deliver RecorderEndsByItself s =
     (case recorder s of
        None \<Rightarrow> Returns () s
      | Some r \<Rightarrow>
          if rec_state r \<noteq> Inactive then
            Returns () (s\<lparr>recorder := Some (r\<lparr>rec_state := Inactive, stop_queued := True\<rparr>)\<rparr>)
          else Returns () s)"
| "deliver StopEvent s =
     (case recorder s of
        None \<Rightarrow> Returns () s
      | Some r \<Rightarrow>
          if stop_queued r then handleRecorderStop (s\<lparr>recorder := Some (r\<lparr>stop_queued := False\<rparr>)\<rparr>)
          else Returns () s)"
| "deliver StopClicked s = stopRecordingFlow s"

text \<open>
  The event loop: one event after the other; an exception that escapes a handler is
  reported by the browser and the loop goes on.
\<close>

fun run :: "event list \<Rightarrow> state \<Rightarrow> state" where
  "run [] s = s"
| "run (e # es) s = run es (state_of (deliver e s))"

subsection \<open>The other controllers in the repository\<close>

text \<open>
  \<^verbatim>\<open>audioContext.createMediaStreamSource(stream)\<close> followed by \<^verbatim>\<open>connect(destination)\<close>, for
  a stream with the given audio tracks: the browser throws when there is none.
\<close>

definition invalidStateError :: thrown where
  "invalidStateError =
     ErrorObj ''InvalidStateError'' ''DOMException'' ''MediaStream has no audio track''
       ''InvalidStateError: MediaStream has no audio track''"

definition createMediaStreamSource :: "nat \<Rightarrow> nat list \<Rightarrow> state \<Rightarrow> outcome" where
  "createMediaStreamSource audioCtx audioTracks s =
     (if audioTracks = [] then
        Throws invalidStateError (s\<lparr>calls := calls s @ [CreateMediaStreamSource audioCtx []]\<rparr>)
      else platform_call (CreateMediaStreamSource audioCtx audioTracks) (\<lambda>s. s) s)"

text \<open>
  The mixer of the earlier \<^verbatim>\<open>popup.js\<close> at the root of the repository, with its inner
  function \<^verbatim>\<open>tryConnect\<close>, which does not look at the audio tracks first.
\<close>

definition tryConnect :: "nat \<Rightarrow> media_stream option \<Rightarrow> state \<Rightarrow> outcome" where
  "tryConnect audioCtx stream s =
     (case stream of
        None \<Rightarrow> Returns () s
      | Some st \<Rightarrow>
          tryCatch (createMediaStreamSource audioCtx (getAudioTracks st) s)
            (\<lambda>e. console_warn ''Could not create MediaStreamSource (maybe no audio tracks):''))"

definition earlier_createCombinedStreamUsingAudioContext ::
    "env \<Rightarrow> media_stream option \<Rightarrow> media_stream option \<Rightarrow> state \<Rightarrow> media_stream result" where
  "earlier_createCombinedStreamUsingAudioContext env display mic s =
     (case display of
        None \<Rightarrow> Throws typeError s
      | Some ds \<Rightarrow>
          (let out =
                 \<lparr>tracks = (case getVideoTracks ds of [] \<Rightarrow> [] | videoTrack # _ \<Rightarrow> [(Video, videoTrack)]),
                  audioContext = None, audioDestination = None, shareEndPollId = None\<rparr>;
               hasDisplayAudio = (length (getAudioTracks ds) > 0);
               hasMicAudio = (case mic of None \<Rightarrow> False | Some ms \<Rightarrow> length (getAudioTracks ms) > 0)
           in if \<not> hasDisplayAudio \<and> \<not> hasMicAudio then Returns out s
              else
                andThen (new_AudioContext s) (\<lambda>audioCtx s.
                andThen (createMediaStreamDestination env audioCtx s) (\<lambda>destination s.
                andThen (tryConnect audioCtx display s) (\<lambda>_ s.
                andThen (if hasMicAudio then tryConnect audioCtx mic s else Returns () s) (\<lambda>_ s.
                  Returns
                    (out
                       \<lparr>tracks := tracks out @
                                   (case snd destination of [] \<Rightarrow> [] | mixedTrack # _ \<Rightarrow> [(Audio, mixedTrack)]),
                        audioContext := Some audioCtx,
                        audioDestination := Some (fst destination)\<rparr>)
                    s))))))"

text \<open>
  \<^verbatim>\<open>startRecorder(options)\<close> of \<^verbatim>\<open>src/shared/recorder/recorder.ts\<close>, up to the controller
  it returns. What the controller's functions close over is the result: the two streams,
  the audio context, the stream that is recorded, the recorder and its list of chunks. The
  first parameter is \<^verbatim>\<open>options.mimeType\<close>, the empty string when it is not given.
\<close>

record recorder_session =
  screenStream :: media_stream
  sessionMic :: "media_stream option"
  audioCtx :: nat
  finalStream :: media_stream
  sessionRecorder :: media_recorder
  chunks :: "blob list"

definition startRecorder :: "string \<Rightarrow> env \<Rightarrow> state \<Rightarrow> recorder_session result" where
  "startRecorder optionsMimeType env s =
     andThen (acquire (GetDisplayMedia True) (getDisplayMedia env) s) (\<lambda>screen s.
     andThen (tryCatch
                (andThen (acquire GetUserMedia (getUserMedia env) s) (\<lambda>stream. Returns (Some stream)))
                (\<lambda>err s. andThen (console_warn ''Mic access not granted or unavailable'' s)
                           (\<lambda>_. Returns None))) (\<lambda>mic s.
     andThen (new_AudioContext s) (\<lambda>ctx s.
     andThen (createMediaStreamDestination env ctx s) (\<lambda>destination s.
     andThen (if length (getAudioTracks screen) > 0
              then createMediaStreamSource ctx (getAudioTracks screen) s else Returns () s) (\<lambda>_ s.
     andThen (if audioOf mic \<noteq> []
              then createMediaStreamSource ctx (audioOf mic) s else Returns () s) (\<lambda>_ s.
       (let final = \<lparr>tracks = map (Pair Video) (getVideoTracks screen) @ map (Pair Audio) (snd destination),
                      audioContext = None, audioDestination = None, shareEndPollId = None\<rparr>;
            mimeType = (if optionsMimeType \<noteq> [] then optionsMimeType else ''video/webm; codecs=vp9,opus'')
        in andThen (tryCatch (new_MediaRecorder (Some mimeType) s) (\<lambda>err. new_MediaRecorder None))
             (\<lambda>rec s.
                andThen (platform_call RecorderStart (\<lambda>s. s) s)
                  (\<lambda>_. Returns
                          \<lparr>screenStream = screen, sessionMic = mic, audioCtx = ctx,
                           finalStream = final, sessionRecorder = rec\<lparr>rec_state := Recording\<rparr>,
                           chunks = []\<rparr>)))))))))"

subsection \<open>Notions used in the statements\<close>

text \<open>The tracks of a stream variable that may be null.\<close>

definition tracksOf :: "media_stream option \<Rightarrow> nat list" where
  "tracksOf stream = (case stream of None \<Rightarrow> [] | Some st \<Rightarrow> getTracks st)"

text \<open>
  The audio context attached to a stream variable, and the polling timer stored on one
  (a timer whose identity is 0 counts as none, as in the source's test), each as a list of
  at most one element.
\<close>

definition contextOf :: "media_stream option \<Rightarrow> nat list" where
  "contextOf stream =
     (case stream of
        None \<Rightarrow> []
      | Some st \<Rightarrow> (case audioContext st of None \<Rightarrow> [] | Some c \<Rightarrow> [c]))"

definition pollOf :: "media_stream option \<Rightarrow> nat list" where
  "pollOf stream =
     (case stream of
        None \<Rightarrow> []
      | Some st \<Rightarrow> (case shareEndPollId st of None \<Rightarrow> [] | Some p \<Rightarrow> if p = 0 then [] else [p]))"

text \<open>
  Nothing is held: no track is live, no audio context is open, no timer is registered,
  and the three stream variables are null.
\<close>

definition holds_nothing :: "state \<Rightarrow> bool" where
  "holds_nothing s \<longleftrightarrow>
     liveTracks s = {} \<and> openContexts s = {} \<and> intervals s = [] \<and>
     combinedStream s = None \<and> displayStream s = None \<and> micStream s = None"

text \<open>The idle user interface: Start can be clicked, Stop cannot.\<close>

definition idle_ui :: "state \<Rightarrow> bool" where
  "idle_ui s \<longleftrightarrow> \<not> startBtn_disabled s \<and> stopBtn_disabled s"

text \<open>
  What \<^verbatim>\<open>checkMicPermissionState\<close> comes to, read off the answers: the state it returns
  (\<open>None\<close> for \<^verbatim>\<open>null\<close>), and whether it queries and what it warns.
\<close>

definition permissionState :: "env \<Rightarrow> string option" where
  "permissionState env =
     (case permissions env of
        None \<Rightarrow> None
      | Some (Inl e) \<Rightarrow> None
      | Some (Inr st) \<Rightarrow> st)"

definition permissionCalls :: "env \<Rightarrow> call list" where
  "permissionCalls env = (case permissions env of None \<Rightarrow> [] | Some answer \<Rightarrow> [PermissionsQuery])"

definition permissionWarnings :: "env \<Rightarrow> console_entry list" where
  "permissionWarnings env =
     (case permissions env of
        None \<Rightarrow> [ConsoleWarn ''Permissions API not available'']
      | Some (Inl e) \<Rightarrow> [ConsoleWarn ''Error checking microphone permission:'']
      | Some (Inr st) \<Rightarrow> [])"

text \<open>
  The points at which start-up is cancelled. The microphone was wanted and its request
  failed; then either the permission is denied for good, or the user declines to go on
  without a microphone. Or the request for the display capture fails, because the picker
  was cancelled or for any other reason.
\<close>

definition mic_request_fails :: "env \<Rightarrow> bool" where
  "mic_request_fails env \<longleftrightarrow>
     includeMic env \<and> (case getUserMedia env of Inl e \<Rightarrow> True | Inr stream \<Rightarrow> False)"

definition denied_permanently :: "env \<Rightarrow> bool" where
  "denied_permanently env \<longleftrightarrow> mic_request_fails env \<and> permissionState env = Some ''denied''"

definition declines_without_mic :: "env \<Rightarrow> bool" where
  "declines_without_mic env \<longleftrightarrow>
     mic_request_fails env \<and> permissionState env \<noteq> Some ''denied'' \<and> \<not> confirm env"

definition display_request_fails :: "env \<Rightarrow> bool" where
  "display_request_fails env \<longleftrightarrow> (case getDisplayMedia env of Inl e \<Rightarrow> True | Inr stream \<Rightarrow> False)"

text \<open>
  A later state in which the earlier calls are still the beginning of the list of calls
  and the instructions box is as it was.
\<close>

definition grows :: "state \<Rightarrow> state \<Rightarrow> bool" where
  "grows s s' \<longleftrightarrow>
     (\<exists>cs. calls s' = calls s @ cs) \<and> settingsInstructions_shown s' = settingsInstructions_shown s"

text \<open>What a run added to the list of calls, and to the console.\<close>

definition new_calls :: "state \<Rightarrow> state \<Rightarrow> call list" where
  "new_calls s s' = drop (length (calls s)) (calls s')"

definition new_console :: "state \<Rightarrow> state \<Rightarrow> console_entry list" where
  "new_console s s' = drop (length (console s)) (console s')"

text \<open>
  How often the recorder was asked to stop, and how often a recording was finalised
  (\<^verbatim>\<open>handleRecorderStop\<close> constructs exactly one blob each time it runs).
\<close>

definition stop_requests :: "state \<Rightarrow> nat" where
  "stop_requests s = length (filter (\<lambda>c. c = RecorderStop) (calls s))"

definition finalizations :: "state \<Rightarrow> nat" where
  "finalizations s = length (filter (\<lambda>c. c = NewBlob) (calls s))"

text \<open>
  The format as the specification words it: the first identifier of the preference list
  that the encoder reports as supported (the query exists, does not throw and answers
  yes); the empty string, which stands for the default configuration, when there is none.
\<close>

definition negotiated :: "env \<Rightarrow> state \<Rightarrow> string" where
  "negotiated env s =
     (case isTypeSupported env of
        None \<Rightarrow> []
      | Some supported \<Rightarrow>
          (case find (\<lambda>m. throws s (IsTypeSupported m) = None \<and> supported m) candidates of
             None \<Rightarrow> []
           | Some m \<Rightarrow> m))"

text \<open>
  The end of the video track \<open>v\<close> is detected among the events of a list, by the listener on
  \<open>v\<close> or by the polling timer \<open>p\<close>: the \<^verbatim>\<open>ended\<close> event is fired on \<open>v\<close>, or a tick of
  \<open>p\<close> comes when \<open>v\<close> has ended. \<open>ended\<close> says whether \<open>v\<close> has ended before the first
  event of the list.
\<close>

fun detected :: "nat \<Rightarrow> nat \<Rightarrow> bool \<Rightarrow> event list \<Rightarrow> bool" where
  "detected v p ended [] = False"
| "detected v p ended (e # es) =
     (e = TrackEnds v \<or> (ended \<and> e = TimerFires p) \<or>
      detected v p (ended \<or> e = TrackEndsSilently v) es)"

text \<open>
  A later state in which the browser throws as before, the listeners, the timers and the
  display stream are as they were, and the recorder is as it was or is a recorder whose
  \<^verbatim>\<open>stop\<close> event is not queued.
\<close>

definition undisturbed :: "state \<Rightarrow> state \<Rightarrow> bool" where
  "undisturbed s s' \<longleftrightarrow>
     throws s' = throws s \<and> endedListeners s' = endedListeners s \<and> intervals s' = intervals s \<and>
     displayStream s' = displayStream s \<and>
     (recorder s' = recorder s \<or> (\<exists>r. recorder s' = Some r \<and> \<not> stop_queued r))"

text \<open>
  The three phases of a session from recording on. Recording, for the display's video
  track \<open>v\<close> and its polling timer \<open>p\<close>, with \<open>c\<close> stop requests and \<open>f\<close> finalisations so
  far: the recorder is active, nothing is queued, the listener is on \<open>v\<close>, the timer \<open>p\<close>
  watches \<open>v\<close>, and neither \<^verbatim>\<open>recorder.stop()\<close> nor clearing \<open>p\<close> throws.
  Stopping, with \<open>n\<close> stop requests and \<open>f\<close> finalisations: the recorder is inactive and
  its \<^verbatim>\<open>stop\<close> event is queued. Finalised: that event has been delivered, and one more
  recording has been finalised.
\<close>

definition recording_phase :: "nat \<Rightarrow> nat \<Rightarrow> nat \<Rightarrow> nat \<Rightarrow> state \<Rightarrow> bool" where
  "recording_phase v p c f s \<longleftrightarrow>
     (\<exists>r. recorder s = Some r \<and> rec_state r \<noteq> Inactive \<and> \<not> stop_queued r) \<and>
     throws s RecorderStop = None \<and> throws s (ClearInterval p) = None \<and>
     v \<in> set (endedListeners s) \<and> map_of (intervals s) p = Some v \<and>
     stop_requests s = c \<and> finalizations s = f"

definition stopping_phase :: "nat \<Rightarrow> nat \<Rightarrow> state \<Rightarrow> bool" where
  "stopping_phase n f s \<longleftrightarrow>
     (\<exists>r. recorder s = Some r \<and> rec_state r = Inactive \<and> stop_queued r) \<and>
     stop_requests s = n \<and> finalizations s = f"

definition finalized_phase :: "nat \<Rightarrow> nat \<Rightarrow> state \<Rightarrow> bool" where
  "finalized_phase n f s \<longleftrightarrow>
     (\<exists>r. recorder s = Some r \<and> rec_state r = Inactive \<and> \<not> stop_queued r) \<and>
     stop_requests s = n \<and> finalizations s = Suc f"

text \<open>The chunks that \<^verbatim>\<open>ondataavailable\<close> keeps of the data of a list of events.\<close>

definition keptChunks :: "blob option list \<Rightarrow> blob list" where
  "keptChunks datas =
     concat (map (\<lambda>data. case data of None \<Rightarrow> [] | Some d \<Rightarrow> if bytes d = [] then [] else [d]) datas)"

text \<open>The bytes of \<^verbatim>\<open>event.data\<close>; none when there is no data.\<close>

definition dataBytes :: "blob option \<Rightarrow> nat list" where
  "dataBytes data = (case data of None \<Rightarrow> [] | Some d \<Rightarrow> bytes d)"

text \<open>
  The order of teardown as the specification words it: the context is closed, then
  tracks are stopped, then the polling timer is cleared, and nothing else is called.
\<close>

fun isContextClose :: "call \<Rightarrow> bool" where
  "isContextClose (ContextClose c) = True"
| "isContextClose _ = False"

fun isTrackStop :: "call \<Rightarrow> bool" where
  "isTrackStop (TrackStop t) = True"
| "isTrackStop _ = False"

fun isClearInterval :: "call \<Rightarrow> bool" where
  "isClearInterval (ClearInterval i) = True"
| "isClearInterval _ = False"

definition spec_teardown_order :: "call list \<Rightarrow> bool" where
  "spec_teardown_order cs \<longleftrightarrow>
     dropWhile isClearInterval (dropWhile isTrackStop (dropWhile isContextClose cs)) = []"

subsection \<open>Concrete states and answers\<close>

text \<open>The page after loading: the variables as declared, nothing acquired, a browser that does not throw.\<close>

definition page_loaded :: state where
  "page_loaded =
     \<lparr>recorder = None, recordedChunks = [], combinedStream = None, displayStream = None,
      micStream = None, startBtn_disabled = False, stopBtn_disabled = True, status = ''Ready'',
      settingsInstructions_shown = False, settingsInstructions_text = [],
      preview_srcObject = None, preview_muted = False,
      liveTracks = {}, openContexts = {}, intervals = [], endedListeners = [], nextId = 0,
      throws = (\<lambda>c. None), calls = [], console = [], artifacts = [], alerts = []\<rparr>"

text \<open>A microphone with one audio track, and a display with a video and an audio track.\<close>

definition mic_example :: media_stream where
  "mic_example = \<lparr>tracks = [(Audio, 10)], audioContext = None, audioDestination = None, shareEndPollId = None\<rparr>"

definition display_example :: media_stream where
  "display_example =
     \<lparr>tracks = [(Video, 20), (Audio, 21)], audioContext = None, audioDestination = None,
      shareEndPollId = None\<rparr>"

definition notAllowed :: thrown where
  "notAllowed = ErrorObj ''NotAllowedError'' ''DOMException'' ''Permission denied'' ''NotAllowedError: Permission denied''"

text \<open>
  A session that is recording display and microphone, as \<^verbatim>\<open>startRecordingFlow\<close> leaves it
  when everything is granted (see \<open>recording_example_reached\<close> below).
\<close>

definition recording_example :: state where
  "recording_example =
     page_loaded
       \<lparr>recorder := Some \<lparr>rec_state = Recording, rec_mimeType = Some ''video/webm;codecs=vp9,opus'',
                          stop_queued = False\<rparr>,
        combinedStream := Some \<lparr>tracks = [(Video, 20), (Audio, 30)], audioContext = Some 1,
                                audioDestination = Some 2, shareEndPollId = None\<rparr>,
        displayStream := Some (display_example\<lparr>shareEndPollId := Some 1\<rparr>),
        micStream := Some mic_example,
        startBtn_disabled := True, stopBtn_disabled := False,
        status := ''Recording... Click Stop to finish.'',
        preview_srcObject := Some \<lparr>tracks = [(Video, 20), (Audio, 30)], audioContext = Some 1,
                                   audioDestination = Some 2, shareEndPollId = None\<rparr>,
        preview_muted := True,
        liveTracks := {10, 20, 21, 30}, openContexts := {1}, intervals := [(1, 20)],
        endedListeners := [20], nextId := 3,
        calls := [GetUserMedia, GetDisplayMedia True, AddEndedListener 20, SetInterval 1,
                  NewAudioContext, CreateMediaStreamDestination 1,
                  CreateMediaStreamSource 1 [21], CreateMediaStreamSource 1 [10],
                  IsTypeSupported ''video/webm;codecs=vp9,opus'',
                  NewMediaRecorder (Some ''video/webm;codecs=vp9,opus''), RecorderStart]\<rparr>"

text \<open>An error of the encoder, and a browser whose encoder rejects the preferred format.\<close>

definition notSupported :: thrown where
  "notSupported =
     ErrorObj ''NotSupportedError'' ''DOMException'' ''Encoder rejected the stream''
       ''NotSupportedError: Encoder rejected the stream''"

definition page_rejecting_encoder :: state where
  "page_rejecting_encoder =
     page_loaded
       \<lparr>throws := (\<lambda>c. if c = NewMediaRecorder (Some ''video/webm;codecs=vp9,opus'')
                       then Some notSupported else None)\<rparr>"

text \<open>Everything is granted and supported.\<close>

definition env_granted :: env where
  "env_granted =
     \<lparr>includeSystemAudio = True, includeMic = True, getUserMedia = Inr mic_example,
      permissions = Some (Inr (Some ''granted'')), confirm = True,
      getDisplayMedia = Inr display_example, isTypeSupported = Some (\<lambda>m. True),
      destinationTracks = [30]\<rparr>"

section \<open>Properties of teardown\<close>

lemmas examples = page_loaded_def recording_example_def display_example_def mic_example_def
  env_granted_def notAllowed_def contextOf_def tracksOf_def pollOf_def getTracks_def
  getAudioTracks_def getVideoTracks_def

text \<open>What stopping the tracks of a stream does, in one equation.\<close>

lemma stop_one_eq:
  "tryCatch (track_stop t s) (\<lambda>e. console_warn w) =
   Returns () (s\<lparr>calls := calls s @ [TrackStop t],
                  liveTracks := liveTracks s - set (filter (\<lambda>t. throws s (TrackStop t) = None) [t]),
                  console := console s @ map (\<lambda>_. ConsoleWarn w) (filter (\<lambda>t. throws s (TrackStop t) \<noteq> None) [t])\<rparr>)"
  by (cases "throws s (TrackStop t)")
     (simp_all add: track_stop_def platform_call_def console_warn_def)

lemma forEach_stop_eq:
  "forEach (\<lambda>track s. tryCatch (track_stop track s) (\<lambda>e. console_warn w)) ts s =
   Returns () (s\<lparr>calls := calls s @ map TrackStop ts,
                  liveTracks := liveTracks s - set (filter (\<lambda>t. throws s (TrackStop t) = None) ts),
                  console := console s @ map (\<lambda>_. ConsoleWarn w) (filter (\<lambda>t. throws s (TrackStop t) \<noteq> None) ts)\<rparr>)"
proof (induction ts arbitrary: s)
  case Nil
  then show ?case by simp
next
  case (Cons t ts)
  let ?f = "\<lambda>track s. tryCatch (track_stop track s) (\<lambda>e. console_warn w)"
  let ?s1 = "s\<lparr>calls := calls s @ [TrackStop t],
                liveTracks := liveTracks s - set (filter (\<lambda>t. throws s (TrackStop t) = None) [t]),
                console := console s @ map (\<lambda>_. ConsoleWarn w) (filter (\<lambda>t. throws s (TrackStop t) \<noteq> None) [t])\<rparr>"
  have "forEach ?f (t # ts) s = andThen (?f t s) (\<lambda>_. forEach ?f ts)"
    by (simp only: forEach.simps)
  also have "\<dots> = forEach ?f ts ?s1"
    by (simp only: stop_one_eq andThen.simps)
  also have "\<dots> = Returns () (?s1\<lparr>calls := calls ?s1 @ map TrackStop ts,
                  liveTracks := liveTracks ?s1 - set (filter (\<lambda>t. throws ?s1 (TrackStop t) = None) ts),
                  console := console ?s1 @ map (\<lambda>_. ConsoleWarn w) (filter (\<lambda>t. throws ?s1 (TrackStop t) \<noteq> None) ts)\<rparr>)"
    by (rule Cons.IH)
  also have "\<dots> = Returns () (s\<lparr>calls := calls s @ map TrackStop (t # ts),
                  liveTracks := liveTracks s - set (filter (\<lambda>t. throws s (TrackStop t) = None) (t # ts)),
                  console := console s @ map (\<lambda>_. ConsoleWarn w) (filter (\<lambda>t. throws s (TrackStop t) \<noteq> None) (t # ts))\<rparr>)"
  proof (cases "throws s (TrackStop t)")
    case None
    have "liveTracks s - {t} - set (filter (\<lambda>t. throws s (TrackStop t) = None) ts) =
      liveTracks s - insert t (set (filter (\<lambda>t. throws s (TrackStop t) = None) ts))"
      by blast
    with None show ?thesis by simp
  next
    case (Some e)
    then show ?thesis by simp
  qed
  finally show ?case .
qed

lemma stopAllTracks_eq:
  "stopAllTracks stream s =
   Returns () (s\<lparr>calls := calls s @ map TrackStop (tracksOf stream),
                  liveTracks := liveTracks s - set (filter (\<lambda>t. throws s (TrackStop t) = None) (tracksOf stream)),
                  console := console s @ map (\<lambda>_. ConsoleWarn ''Error stopping track:'')
                                (filter (\<lambda>t. throws s (TrackStop t) \<noteq> None) (tracksOf stream))\<rparr>)"
  by (cases stream) (simp_all add: stopAllTracks_def forEach_stop_eq tracksOf_def)

lemma close_step_eq:
  "(case combinedStream s of
      None \<Rightarrow> Returns () s
    | Some cs \<Rightarrow>
        (case audioContext cs of
           None \<Rightarrow> Returns () s
         | Some c \<Rightarrow> tryCatch (audioContext_close c s) (\<lambda>e. console_warn w))) =
   Returns () (s\<lparr>calls := calls s @ map ContextClose (contextOf (combinedStream s)),
                  openContexts := openContexts s -
                     set (filter (\<lambda>c. throws s (ContextClose c) = None) (contextOf (combinedStream s))),
                  console := console s @ map (\<lambda>_. ConsoleWarn w)
                     (filter (\<lambda>c. throws s (ContextClose c) \<noteq> None) (contextOf (combinedStream s)))\<rparr>)"
proof (cases "combinedStream s")
  case None
  then show ?thesis by (simp add: contextOf_def)
next
  case (Some cs)
  show ?thesis
  proof (cases "audioContext cs")
    case None
    with Some show ?thesis by (simp add: contextOf_def)
  next
    case c: (Some c)
    show ?thesis
    proof (cases "throws s (ContextClose c)")
      case None
      with Some c show ?thesis
        by (simp add: contextOf_def audioContext_close_def platform_call_def)
    next
      case e: (Some e)
      with Some c show ?thesis
        by (simp add: contextOf_def audioContext_close_def platform_call_def console_warn_def)
    qed
  qed
qed

lemma clear_step_eq:
  "tryCatch
     (case displayStream s of
        None \<Rightarrow> Returns () s
      | Some ds \<Rightarrow>
          (case shareEndPollId ds of
             None \<Rightarrow> Returns () s
           | Some p \<Rightarrow> if p = 0 then Returns () s else clearInterval p s))
     (\<lambda>e. console_warn w) =
   Returns () (s\<lparr>calls := calls s @ map ClearInterval (pollOf (displayStream s)),
                  intervals := filter (\<lambda>p. fst p \<notin> set (filter (\<lambda>i. throws s (ClearInterval i) = None) (pollOf (displayStream s))))
                                 (intervals s),
                  console := console s @ map (\<lambda>_. ConsoleWarn w)
                     (filter (\<lambda>i. throws s (ClearInterval i) \<noteq> None) (pollOf (displayStream s)))\<rparr>)"
proof (cases "displayStream s")
  case None
  then show ?thesis by (simp add: pollOf_def)
next
  case (Some ds)
  show ?thesis
  proof (cases "shareEndPollId ds")
    case None
    with Some show ?thesis by (simp add: pollOf_def)
  next
    case p: (Some p)
    show ?thesis
    proof (cases "p = 0")
      case True
      with Some p show ?thesis by (simp add: pollOf_def)
    next
      case False
      show ?thesis
      proof (cases "throws s (ClearInterval p)")
        case None
        with Some p False show ?thesis
          by (simp add: pollOf_def clearInterval_def platform_call_def)
      next
        case e: (Some e)
        with Some p False show ?thesis
          by (simp add: pollOf_def clearInterval_def platform_call_def console_warn_def)
      qed
    qed
  qed
qed

text \<open>The whole of \<^verbatim>\<open>cleanupRecordingResources\<close> in one equation.\<close>

lemma cleanup_eq:
  "cleanupRecordingResources s =
   Returns ()
     (s\<lparr>combinedStream := None, displayStream := None, micStream := None, preview_srcObject := None,
        calls := calls s @ map ContextClose (contextOf (combinedStream s))
                  @ map TrackStop (tracksOf (combinedStream s))
                  @ map ClearInterval (pollOf (displayStream s))
                  @ map TrackStop (tracksOf (displayStream s))
                  @ map TrackStop (tracksOf (micStream s)),
        openContexts := openContexts s -
           set (filter (\<lambda>c. throws s (ContextClose c) = None) (contextOf (combinedStream s))),
        liveTracks := liveTracks s
           - set (filter (\<lambda>t. throws s (TrackStop t) = None) (tracksOf (combinedStream s)))
           - set (filter (\<lambda>t. throws s (TrackStop t) = None) (tracksOf (displayStream s)))
           - set (filter (\<lambda>t. throws s (TrackStop t) = None) (tracksOf (micStream s))),
        intervals := filter (\<lambda>p. fst p \<notin> set (filter (\<lambda>i. throws s (ClearInterval i) = None) (pollOf (displayStream s))))
                       (intervals s),
        console := console s
           @ map (\<lambda>_. ConsoleWarn ''Error closing audio context:'')
               (filter (\<lambda>c. throws s (ContextClose c) \<noteq> None) (contextOf (combinedStream s)))
           @ map (\<lambda>_. ConsoleWarn ''Error stopping track:'')
               (filter (\<lambda>t. throws s (TrackStop t) \<noteq> None) (tracksOf (combinedStream s)))
           @ map (\<lambda>_. ConsoleWarn ''Error clearing poll interval:'')
               (filter (\<lambda>i. throws s (ClearInterval i) \<noteq> None) (pollOf (displayStream s)))
           @ map (\<lambda>_. ConsoleWarn ''Error stopping track:'')
               (filter (\<lambda>t. throws s (TrackStop t) \<noteq> None) (tracksOf (displayStream s)))
           @ map (\<lambda>_. ConsoleWarn ''Error stopping track:'')
               (filter (\<lambda>t. throws s (TrackStop t) \<noteq> None) (tracksOf (micStream s)))\<rparr>)"
  unfolding cleanupRecordingResources_def
  by (simp add: close_step_eq clear_step_eq stopAllTracks_eq)

lemma cleanup_nothing_left:
  assumes "combinedStream s = None" "displayStream s = None" "micStream s = None"
    and "preview_srcObject s = None"
  shows "cleanupRecordingResources s = Returns () s"
  using assms by (simp add: cleanup_eq contextOf_def tracksOf_def pollOf_def)

text \<open>
  Claim C2. Teardown never throws, whatever the browser does inside it and whichever of
  the resources exist: it returns, all three stream variables are null afterwards, and a
  second call returns the very same state. Every track of the three streams whose
  \<^verbatim>\<open>stop()\<close> does not throw is ended, the audio context is closed if its
  \<^verbatim>\<open>close()\<close> does not throw, and the polling timer is no longer registered if
  \<^verbatim>\<open>clearInterval\<close> does not throw.
\<close>

theorem cleanup_idempotent:
  "let s1 = state_of (cleanupRecordingResources s) in
     cleanupRecordingResources s = Returns () s1 \<and>
     cleanupRecordingResources s1 = Returns () s1 \<and>
     combinedStream s1 = None \<and> displayStream s1 = None \<and> micStream s1 = None \<and>
     (\<forall>t \<in> set (tracksOf (combinedStream s) @ tracksOf (displayStream s) @ tracksOf (micStream s)).
        throws s (TrackStop t) = None \<longrightarrow> t \<notin> liveTracks s1) \<and>
     (\<forall>c \<in> set (contextOf (combinedStream s)).
        throws s (ContextClose c) = None \<longrightarrow> c \<notin> openContexts s1) \<and>
     (\<forall>p \<in> set (pollOf (displayStream s)).
        throws s (ClearInterval p) = None \<longrightarrow> p \<notin> fst ` set (intervals s1))"
proof -
  define s1 where "s1 = state_of (cleanupRecordingResources s)"
  have once: "cleanupRecordingResources s = Returns () s1"
    unfolding s1_def by (simp add: cleanup_eq)
  have refs: "combinedStream s1 = None" "displayStream s1 = None" "micStream s1 = None"
    "preview_srcObject s1 = None"
    unfolding s1_def by (simp_all add: cleanup_eq)
  have twice: "cleanupRecordingResources s1 = Returns () s1"
    using refs by (rule cleanup_nothing_left)
  have live: "t \<notin> liveTracks s1"
    if "t \<in> set (tracksOf (combinedStream s) @ tracksOf (displayStream s) @ tracksOf (micStream s))"
      and "throws s (TrackStop t) = None" for t
    using that unfolding s1_def by (auto simp add: cleanup_eq)
  have ctx: "c \<notin> openContexts s1"
    if "c \<in> set (contextOf (combinedStream s))" and "throws s (ContextClose c) = None" for c
    using that unfolding s1_def by (simp add: cleanup_eq)
  have poll: "p \<notin> fst ` set (intervals s1)"
    if "p \<in> set (pollOf (displayStream s))" and "throws s (ClearInterval p) = None" for p
    using that unfolding s1_def by (auto simp add: cleanup_eq)
  show ?thesis
    unfolding Let_def s1_def[symmetric]
    using once twice refs live ctx poll by blast
qed

text \<open>
  Claim C6, as amended. Whenever \<^verbatim>\<open>cleanupRecordingResources\<close> runs, it calls the browser in
  this order: it closes the audio context of the combined stream, if there is one; it
  stops every track of the combined stream; it clears the polling timer, if one is
  stored on the display stream; it stops every track of the display stream and then of
  the microphone stream. After that the three stream variables are null.
\<close>

theorem teardown_order:
  "new_calls s (state_of (cleanupRecordingResources s)) =
     map ContextClose (contextOf (combinedStream s))
     @ map TrackStop (tracksOf (combinedStream s))
     @ map ClearInterval (pollOf (displayStream s))
     @ map TrackStop (tracksOf (displayStream s))
     @ map TrackStop (tracksOf (micStream s)) \<and>
   combinedStream (state_of (cleanupRecordingResources s)) = None \<and>
   displayStream (state_of (cleanupRecordingResources s)) = None \<and>
   micStream (state_of (cleanupRecordingResources s)) = None"
  by (simp add: cleanup_eq new_calls_def)

theorem teardown_order_witness:
  "new_calls recording_example (state_of (cleanupRecordingResources recording_example)) =
     [ContextClose 1, TrackStop 20, TrackStop 30, ClearInterval 1, TrackStop 20, TrackStop 21, TrackStop 10]"
  using teardown_order [of recording_example]
  by (simp add: examples)

text \<open>
  Claim C6 as the specification states it, with the timer cleared only after every track
  of every stream has been stopped, fails for a session that records display and
  microphone: the timer is cleared before the tracks of the display and of the microphone
  are stopped.
\<close>

theorem teardown_spec_order_counterexample:
  "\<not> spec_teardown_order
       (new_calls recording_example (state_of (cleanupRecordingResources recording_example)))"
  by (simp add: cleanup_eq new_calls_def spec_teardown_order_def examples)

theorem cleanup_idempotent_witness:
  "throws (page_loaded\<lparr>micStream := Some mic_example, liveTracks := {10}\<rparr>) (TrackStop 10) = None \<and>
   10 \<in> set (tracksOf (micStream (page_loaded\<lparr>micStream := Some mic_example, liveTracks := {10}\<rparr>))) \<and>
   cleanupRecordingResources (page_loaded\<lparr>micStream := Some mic_example, liveTracks := {10}\<rparr>) =
     Returns () (page_loaded\<lparr>calls := [TrackStop 10]\<rparr>) \<and>
   cleanupRecordingResources (page_loaded\<lparr>calls := [TrackStop 10]\<rparr>) =
     Returns () (page_loaded\<lparr>calls := [TrackStop 10]\<rparr>) \<and>
   10 \<notin> liveTracks (page_loaded\<lparr>calls := [TrackStop 10]\<rparr>)"
proof -
  let ?s = "page_loaded\<lparr>micStream := Some mic_example, liveTracks := {10}\<rparr>"
  have s1: "state_of (cleanupRecordingResources ?s) = page_loaded\<lparr>calls := [TrackStop 10]\<rparr>"
    by (simp add: cleanup_eq examples)
  show ?thesis
    using cleanup_idempotent [of ?s] unfolding Let_def s1
    by (simp add: examples)
qed

section \<open>Properties of start-up\<close>

lemma checkMicPermissionState_eq:
  "checkMicPermissionState env s =
     Returns (permissionState env)
       (s\<lparr>calls := calls s @ permissionCalls env, console := console s @ permissionWarnings env\<rparr>)"
proof (cases "permissions env")
  case None
  then show ?thesis
    by (simp add: checkMicPermissionState_def permissionState_def permissionCalls_def
        permissionWarnings_def console_warn_def)
next
  case (Some answer)
  then show ?thesis
    by (cases answer)
      (simp_all add: checkMicPermissionState_def permissionState_def permissionCalls_def
        permissionWarnings_def console_warn_def await_def)
qed

text \<open>The state in which start-up stands after the microphone request has failed and the permission has been checked.\<close>

lemma start_denied:
  assumes "denied_permanently env"
  shows "startRecordingFlow env s =
     Returns ()
       (s\<lparr>micStream := None, startBtn_disabled := False, stopBtn_disabled := True,
          status := ''Microphone permission is denied.'',
          settingsInstructions_shown := True, settingsInstructions_text := instructions,
          calls := calls s @ [GetUserMedia] @ permissionCalls env,
          console := console s @ [ConsoleError ''Microphone request failed:''] @ permissionWarnings env\<rparr>)"
proof -
  from assms obtain err where "includeMic env" "getUserMedia env = Inl err"
    "permissionState env = Some ''denied''"
    by (auto simp add: denied_permanently_def mic_request_fails_def split: sum.splits)
  then show ?thesis
    by (simp add: startRecordingFlow_def acquire_def await_def console_error_def
        checkMicPermissionState_eq showMicDeniedUI_def resetUI_def logStatus_def)
qed

lemma start_declined:
  assumes "declines_without_mic env"
  shows "startRecordingFlow env s =
     Returns ()
       (s\<lparr>micStream := None, startBtn_disabled := False, stopBtn_disabled := True,
          status := ''Recording cancelled because microphone is required.'',
          settingsInstructions_shown := False,
          calls := calls s @ [GetUserMedia] @ permissionCalls env @ [ConfirmDialog],
          console := console s @ [ConsoleError ''Microphone request failed:''] @ permissionWarnings env\<rparr>)"
proof -
  from assms obtain err where "includeMic env" "getUserMedia env = Inl err"
    "permissionState env \<noteq> Some ''denied''" "\<not> confirm env"
    by (auto simp add: declines_without_mic_def mic_request_fails_def split: sum.splits)
  then show ?thesis
    by (simp add: startRecordingFlow_def acquire_def await_def console_error_def
        checkMicPermissionState_eq confirm_dialog_def resetUI_def logStatus_def)
qed

text \<open>The three ways in which start-up reaches step 2.\<close>

lemma start_without_mic:
  assumes "\<not> includeMic env"
  shows "startRecordingFlow env s =
     flow_from_step2 env
       (s\<lparr>startBtn_disabled := True, stopBtn_disabled := True,
          settingsInstructions_shown := False, status := ''Preparing...'', micStream := None\<rparr>)"
  using assms by (simp add: startRecordingFlow_def)

lemma start_with_mic:
  assumes "includeMic env" "getUserMedia env = Inr stream"
  shows "startRecordingFlow env s =
     flow_from_step2 env
       (s\<lparr>startBtn_disabled := True, stopBtn_disabled := True,
          settingsInstructions_shown := False, status := ''Preparing...'',
          calls := calls s @ [GetUserMedia],
          liveTracks := liveTracks s \<union> set (getTracks stream),
          micStream := Some stream\<rparr>)"
  using assms by (simp add: startRecordingFlow_def acquire_def await_def)

lemma start_continue_without_mic:
  assumes "includeMic env" "getUserMedia env = Inl err"
    "permissionState env \<noteq> Some ''denied''" "confirm env"
  shows "startRecordingFlow env s =
     flow_from_step2 env
       (s\<lparr>startBtn_disabled := True, stopBtn_disabled := True,
          settingsInstructions_shown := False, status := ''Preparing...'',
          console := console s @ [ConsoleError ''Microphone request failed:''] @ permissionWarnings env,
          calls := calls s @ [GetUserMedia] @ permissionCalls env @ [ConfirmDialog],
          micStream := None\<rparr>)"
  using assms
  by (simp add: startRecordingFlow_def acquire_def await_def console_error_def
      checkMicPermissionState_eq confirm_dialog_def)

lemma step2_failed:
  assumes "getDisplayMedia env = Inl err"
  shows "flow_from_step2 env s =
     Returns ()
       (s\<lparr>micStream := None, startBtn_disabled := False, stopBtn_disabled := True,
          status := (if isUserCancellation err then ''Ready. Screen sharing was cancelled.''
                     else ''Failed to start display capture: '' @ errorText err),
          liveTracks := liveTracks s - set (filter (\<lambda>t. throws s (TrackStop t) = None) (tracksOf (micStream s))),
          calls := calls s @ [GetDisplayMedia (includeSystemAudio env)] @ map TrackStop (tracksOf (micStream s)),
          console := console s
             @ (if isUserCancellation err then [] else [ConsoleWarn ''Display capture failed:''])
             @ map (\<lambda>_. ConsoleWarn ''Error stopping track:'')
                 (filter (\<lambda>t. throws s (TrackStop t) \<noteq> None) (tracksOf (micStream s)))\<rparr>)"
proof (cases "micStream s")
  case None
  with assms show ?thesis
    by (simp add: flow_from_step2_def acquire_def await_def console_warn_def logStatus_def
        resetUI_def tracksOf_def)
next
  case (Some m)
  have t: "tracksOf (Some m) = getTracks m" by (simp add: tracksOf_def)
  from Some assms show ?thesis
    by (simp add: flow_from_step2_def acquire_def await_def console_warn_def logStatus_def
        resetUI_def stopAllTracks_eq t)
qed

text \<open>
  Claim C1. Start-up begins with nothing held, on a browser whose \<^verbatim>\<open>stop()\<close> does not
  throw. If the microphone permission turns out to be denied for good, or the user declines
  to go on without a microphone, or the request for the display capture fails (cancelled
  in the picker, or failing for any other reason), then the flow returns, nothing is held
  afterwards (no live track, no open audio context, no timer, all three stream variables
  null) and the interface is idle. A microphone that had been acquired has had
  \<^verbatim>\<open>stop()\<close> called on each of its tracks.
\<close>

theorem cancellation_holds_nothing:
  assumes idle: "holds_nothing s"
    and stops: "\<forall>t. throws s (TrackStop t) = None"
    and cancelled: "denied_permanently env \<or> declines_without_mic env \<or> display_request_fails env"
  shows "\<exists>s'. startRecordingFlow env s = Returns () s' \<and> holds_nothing s' \<and> idle_ui s' \<and>
           (\<forall>stream. includeMic env \<and> getUserMedia env = Inr stream \<longrightarrow>
              new_calls s s' = [GetUserMedia, GetDisplayMedia (includeSystemAudio env)]
                                @ map TrackStop (getTracks stream))"
proof -
  have fields: "liveTracks s = {}" "openContexts s = {}" "intervals s = []"
    "combinedStream s = None" "displayStream s = None" "micStream s = None"
    using idle unfolding holds_nothing_def by blast+
  from stops have nothrow: "throws s (TrackStop t) = None" for t by simp
  consider (denied) "denied_permanently env"
    | (declined) "declines_without_mic env"
    | (display) "\<not> denied_permanently env" "\<not> declines_without_mic env" "display_request_fails env"
    using cancelled by blast
  then show ?thesis
  proof cases
    case denied
    then obtain e where "getUserMedia env = Inl e"
      by (auto simp add: denied_permanently_def mic_request_fails_def split: sum.splits)
    then show ?thesis
      using fields by (simp add: start_denied [OF denied] holds_nothing_def idle_ui_def)
  next
    case declined
    then obtain e where "getUserMedia env = Inl e"
      by (auto simp add: declines_without_mic_def mic_request_fails_def split: sum.splits)
    then show ?thesis
      using fields by (simp add: start_declined [OF declined] holds_nothing_def idle_ui_def)
  next
    case display
    from display(3) obtain err where err: "getDisplayMedia env = Inl err"
      by (auto simp add: display_request_fails_def split: sum.splits)
    show ?thesis
    proof (cases "includeMic env")
      case False
      then show ?thesis
        using fields
        by (simp add: start_without_mic step2_failed [OF err] holds_nothing_def idle_ui_def
            tracksOf_def)
    next
      case True
      show ?thesis
      proof (cases "getUserMedia env")
        case (Inr stream)
        have "set (getTracks stream) - set (filter (\<lambda>t. throws s (TrackStop t) = None) (getTracks stream)) = {}"
          by (simp add: nothrow)
        then show ?thesis
          using fields True Inr
          by (simp add: start_with_mic step2_failed [OF err] holds_nothing_def idle_ui_def
              tracksOf_def new_calls_def)
      next
        case (Inl e)
        with True display have "permissionState env \<noteq> Some ''denied''" "confirm env"
          by (auto simp add: denied_permanently_def declines_without_mic_def mic_request_fails_def)
        then show ?thesis
          using fields True Inl
          by (simp add: start_continue_without_mic step2_failed [OF err] holds_nothing_def
              idle_ui_def tracksOf_def)
      qed
    qed
  qed
qed

text \<open>The microphone is granted and the display picker is cancelled.\<close>

theorem cancellation_holds_nothing_witness:
  "holds_nothing page_loaded \<and> (\<forall>t. throws page_loaded (TrackStop t) = None) \<and>
   display_request_fails (env_granted\<lparr>getDisplayMedia := Inl notAllowed\<rparr>) \<and>
   (\<exists>s'. startRecordingFlow (env_granted\<lparr>getDisplayMedia := Inl notAllowed\<rparr>) page_loaded = Returns () s' \<and>
      holds_nothing s' \<and> idle_ui s' \<and>
      new_calls page_loaded s' = [GetUserMedia, GetDisplayMedia True, TrackStop 10])"
proof -
  let ?env = "env_granted\<lparr>getDisplayMedia := Inl notAllowed\<rparr>"
  have h1: "holds_nothing page_loaded"
    by (simp add: holds_nothing_def page_loaded_def)
  have h2: "\<forall>t. throws page_loaded (TrackStop t) = None"
    by (simp add: page_loaded_def)
  have h3: "denied_permanently ?env \<or> declines_without_mic ?env \<or> display_request_fails ?env"
    by (simp add: display_request_fails_def env_granted_def)
  have mic: "includeMic ?env \<and> getUserMedia ?env = Inr mic_example"
    by (simp add: env_granted_def)
  from cancellation_holds_nothing [OF h1 h2 h3] mic
  have "\<exists>s'. startRecordingFlow ?env page_loaded = Returns () s' \<and> holds_nothing s' \<and> idle_ui s' \<and>
      new_calls page_loaded s' = [GetUserMedia, GetDisplayMedia (includeSystemAudio ?env)] @ map TrackStop (getTracks mic_example)"
    by blast
  then have "\<exists>s'. startRecordingFlow ?env page_loaded = Returns () s' \<and> holds_nothing s' \<and> idle_ui s' \<and>
      new_calls page_loaded s' = [GetUserMedia, GetDisplayMedia True, TrackStop 10]"
    by (simp add: env_granted_def mic_example_def getTracks_def)
  with h1 h2 h3 show ?thesis
    by (simp add: display_request_fails_def env_granted_def)
qed

text \<open>
  Claim C7. Start-up reaches the request for the display capture and the request fails.
  The error counts as a cancellation exactly when its name (or, without a name, the name
  of its constructor) is one of \<^verbatim>\<open>AbortError\<close>, \<^verbatim>\<open>NotAllowedError\<close>,
  \<^verbatim>\<open>SecurityError\<close>, \<^verbatim>\<open>NotFoundError\<close>, \<^verbatim>\<open>NotReadableError\<close>. A cancellation
  sets the status to a plain "Ready" line and writes no warning about the capture (and
  nothing at all to the console when the microphone request had not failed and no
  \<^verbatim>\<open>stop()\<close> throws); any other error writes the warning and puts the error's message
  (or, without one, the error as a string) into the status. Either way the interface is
  idle again.
\<close>

theorem display_error_classification:
  assumes reaches: "\<not> denied_permanently env" "\<not> declines_without_mic env"
    and fails: "getDisplayMedia env = Inl err"
  shows "let s' = state_of (startRecordingFlow env s) in
     (isUserCancellation err \<longleftrightarrow>
        errorName err \<in> {''AbortError'', ''NotAllowedError'', ''SecurityError'', ''NotFoundError'',
                          ''NotReadableError''}) \<and>
     status s' = (if isUserCancellation err then ''Ready. Screen sharing was cancelled.''
                  else ''Failed to start display capture: '' @ errorText err) \<and>
     (ConsoleWarn ''Display capture failed:'' \<in> set (new_console s s') \<longleftrightarrow> \<not> isUserCancellation err) \<and>
     (isUserCancellation err \<and> \<not> mic_request_fails env \<and> (\<forall>t. throws s (TrackStop t) = None)
        \<longrightarrow> console s' = console s) \<and>
     idle_ui s'"
proof -
  define s' where "s' = state_of (startRecordingFlow env s)"
  define stopWarnings where "stopWarnings = (\<lambda>mid :: state. map (\<lambda>_. ConsoleWarn ''Error stopping track:'')
      (filter (\<lambda>t. throws s (TrackStop t) \<noteq> None) (tracksOf (micStream mid))))"
  have names: "isUserCancellation err \<longleftrightarrow>
        errorName err \<in> {''AbortError'', ''NotAllowedError'', ''SecurityError'', ''NotFoundError'',
                          ''NotReadableError''}"
    by (simp add: isUserCancellation_def silentErrorNames_def)
  have pw: "ConsoleWarn ''Display capture failed:'' \<notin> set (permissionWarnings env)"
    by (simp add: permissionWarnings_def split: option.splits sum.splits)
  have sw: "ConsoleWarn ''Display capture failed:'' \<notin> set (stopWarnings mid)" for mid
    by (auto simp add: stopWarnings_def)
  have quiet: "stopWarnings mid = []" if "\<forall>t. throws s (TrackStop t) = None" for mid
    using that by (simp add: stopWarnings_def)
  have "\<exists>mid pre. startRecordingFlow env s = flow_from_step2 env mid \<and>
      console mid = console s @ pre \<and> throws mid = throws s \<and>
      ConsoleWarn ''Display capture failed:'' \<notin> set pre \<and> (\<not> mic_request_fails env \<longrightarrow> pre = [])"
  proof (cases "includeMic env")
    case False
    let ?mid = "s\<lparr>startBtn_disabled := True, stopBtn_disabled := True,
          settingsInstructions_shown := False, status := ''Preparing...'', micStream := None\<rparr>"
    have "startRecordingFlow env s = flow_from_step2 env ?mid"
      by (rule start_without_mic [OF False])
    moreover have "console ?mid = console s @ []" "throws ?mid = throws s"
      by simp_all
    ultimately show ?thesis by fastforce
  next
    case True
    show ?thesis
    proof (cases "getUserMedia env")
      case (Inr stream)
      let ?mid = "s\<lparr>startBtn_disabled := True, stopBtn_disabled := True,
          settingsInstructions_shown := False, status := ''Preparing...'',
          calls := calls s @ [GetUserMedia],
          liveTracks := liveTracks s \<union> set (getTracks stream),
          micStream := Some stream\<rparr>"
      have "startRecordingFlow env s = flow_from_step2 env ?mid"
        by (rule start_with_mic [OF True Inr])
      moreover have "console ?mid = console s @ []" "throws ?mid = throws s"
        by simp_all
      ultimately show ?thesis by fastforce
    next
      case (Inl e)
      with True reaches have cont: "permissionState env \<noteq> Some ''denied''" "confirm env"
        by (auto simp add: denied_permanently_def declines_without_mic_def mic_request_fails_def)
      from True Inl have mf: "mic_request_fails env" by (simp add: mic_request_fails_def)
      let ?pre = "[ConsoleError ''Microphone request failed:''] @ permissionWarnings env"
      let ?mid = "s\<lparr>startBtn_disabled := True, stopBtn_disabled := True,
          settingsInstructions_shown := False, status := ''Preparing...'',
          console := console s @ [ConsoleError ''Microphone request failed:''] @ permissionWarnings env,
          calls := calls s @ [GetUserMedia] @ permissionCalls env @ [ConfirmDialog],
          micStream := None\<rparr>"
      have "startRecordingFlow env s = flow_from_step2 env ?mid"
        by (rule start_continue_without_mic [OF True Inl cont])
      moreover have "console ?mid = console s @ ?pre" "throws ?mid = throws s"
        by simp_all
      moreover have "ConsoleWarn ''Display capture failed:'' \<notin> set ?pre"
        using pw by simp
      ultimately show ?thesis using mf by blast
    qed
  qed
  then obtain mid pre where start: "startRecordingFlow env s = flow_from_step2 env mid"
    and mid: "console mid = console s @ pre" "throws mid = throws s"
    and pre: "ConsoleWarn ''Display capture failed:'' \<notin> set pre" "\<not> mic_request_fails env \<Longrightarrow> pre = []"
    by blast
  have st: "status s' = (if isUserCancellation err then ''Ready. Screen sharing was cancelled.''
                  else ''Failed to start display capture: '' @ errorText err)"
    and ui: "idle_ui s'"
    and con: "console s' = console s @ pre
         @ (if isUserCancellation err then [] else [ConsoleWarn ''Display capture failed:''])
         @ stopWarnings mid"
    unfolding s'_def start by (simp_all add: step2_failed [OF fails] idle_ui_def mid stopWarnings_def)
  from con have new: "new_console s s' = pre
         @ (if isUserCancellation err then [] else [ConsoleWarn ''Display capture failed:''])
         @ stopWarnings mid"
    by (simp add: new_console_def)
  have logged: "ConsoleWarn ''Display capture failed:'' \<in> set (new_console s s') \<longleftrightarrow> \<not> isUserCancellation err"
    unfolding new using pre(1) sw by simp
  have silent: "console s' = console s"
    if "isUserCancellation err" "\<not> mic_request_fails env" "\<forall>t. throws s (TrackStop t) = None"
    using that con pre(2) quiet by simp
  show ?thesis
    unfolding Let_def s'_def [symmetric]
    using names st logged silent ui by blast
qed

text \<open>A \<^verbatim>\<open>NotAllowedError\<close> is silent; a \<^verbatim>\<open>TypeError\<close> is reported with its message.\<close>

theorem display_error_classification_witness:
  "\<not> denied_permanently (env_granted\<lparr>includeMic := False, getDisplayMedia := Inl notAllowed\<rparr>) \<and>
   \<not> declines_without_mic (env_granted\<lparr>includeMic := False, getDisplayMedia := Inl notAllowed\<rparr>) \<and>
   isUserCancellation notAllowed \<and>
   status (state_of (startRecordingFlow
       (env_granted\<lparr>includeMic := False, getDisplayMedia := Inl notAllowed\<rparr>) page_loaded)) =
     ''Ready. Screen sharing was cancelled.'' \<and>
   console (state_of (startRecordingFlow
       (env_granted\<lparr>includeMic := False, getDisplayMedia := Inl notAllowed\<rparr>) page_loaded)) = [] \<and>
   \<not> isUserCancellation (ErrorObj ''TypeError'' ''TypeError'' ''boom'' ''TypeError: boom'') \<and>
   status (state_of (startRecordingFlow
       (env_granted\<lparr>includeMic := False,
          getDisplayMedia := Inl (ErrorObj ''TypeError'' ''TypeError'' ''boom'' ''TypeError: boom'')\<rparr>)
       page_loaded)) =
     ''Failed to start display capture: boom'' \<and>
   ConsoleWarn ''Display capture failed:'' \<in> set (new_console page_loaded (state_of (startRecordingFlow
       (env_granted\<lparr>includeMic := False,
          getDisplayMedia := Inl (ErrorObj ''TypeError'' ''TypeError'' ''boom'' ''TypeError: boom'')\<rparr>)
       page_loaded)))"
proof -
  let ?E1 = "env_granted\<lparr>includeMic := False, getDisplayMedia := Inl notAllowed\<rparr>"
  let ?boom = "ErrorObj ''TypeError'' ''TypeError'' ''boom'' ''TypeError: boom''"
  let ?E2 = "env_granted\<lparr>includeMic := False, getDisplayMedia := Inl ?boom\<rparr>"
  have r1: "\<not> denied_permanently ?E1" "\<not> declines_without_mic ?E1"
    and r2: "\<not> denied_permanently ?E2" "\<not> declines_without_mic ?E2"
    and nf: "\<not> mic_request_fails ?E1"
    by (simp_all add: denied_permanently_def declines_without_mic_def mic_request_fails_def)
  have f1: "getDisplayMedia ?E1 = Inl notAllowed" and f2: "getDisplayMedia ?E2 = Inl ?boom"
    by simp_all
  have c1: "isUserCancellation notAllowed" and c2: "\<not> isUserCancellation ?boom"
    by (simp_all add: isUserCancellation_def silentErrorNames_def notAllowed_def)
  have quiet: "\<forall>t. throws page_loaded (TrackStop t) = None" "console page_loaded = []"
    by (simp_all add: page_loaded_def)
  show ?thesis
    using display_error_classification [OF r1 f1, of page_loaded]
      display_error_classification [OF r2 f2, of page_loaded] r1 c1 c2 nf quiet
    by (simp add: Let_def)
qed

subsection \<open>Calls are only ever added\<close>

text \<open>
  From step 2 on, start-up only appends to the list of calls and never touches the
  instructions box.
\<close>

lemma grows_refl: "grows s s"
  by (simp add: grows_def)

lemma grows_trans: "grows s s1 \<Longrightarrow> grows s1 s2 \<Longrightarrow> grows s s2"
  by (auto simp add: grows_def)

lemma grows_case:
  assumes "grows s (state_of r)"
    and "\<And>v s1. grows s1 (state_of (f v s1))"
    and "\<And>e s1. grows s1 (state_of (g e s1))"
  shows "grows s (state_of (case r of Returns v s1 \<Rightarrow> f v s1 | Throws e s1 \<Rightarrow> g e s1))"
  using assms by (cases r) (auto intro: grows_trans)

lemma grows_andThen:
  assumes "grows s (state_of r)" and "\<And>v s1. grows s1 (state_of (f v s1))"
  shows "grows s (state_of (andThen r f))"
  using assms by (cases r) (auto intro: grows_trans)

lemma grows_tryCatch:
  assumes "grows s (state_of r)" and "\<And>e s1. grows s1 (state_of (h e s1))"
  shows "grows s (state_of (tryCatch r h))"
  using assms by (cases r) (auto intro: grows_trans)

lemma grows_block:
  assumes "\<And>f s1. f \<in> set fs \<Longrightarrow> grows s1 (state_of (f s1))"
  shows "grows s (state_of (block fs s))"
  using assms
proof (induction fs arbitrary: s)
  case Nil
  then show ?case by (simp add: grows_refl)
next
  case (Cons f fs)
  show ?case
    unfolding block.simps
    by (rule grows_andThen) (simp_all add: Cons)
qed

lemma grows_platform_call:
  assumes "\<And>s1. grows s1 (effect s1)"
  shows "grows s (state_of (platform_call c effect s))"
proof -
  have "grows s (s\<lparr>calls := calls s @ [c]\<rparr>)" by (simp add: grows_def)
  then show ?thesis
    using assms by (cases "throws s c") (auto simp add: platform_call_def intro: grows_trans)
qed

lemma grows_simple [simp]:
  "grows s (state_of (logStatus msg s))"
  "grows s (state_of (console_warn w s))"
  "grows s (state_of (console_error w s))"
  "grows s (state_of (resetUI s))"
  "grows s (state_of (stopAllTracks stream s))"
  by (simp_all add: grows_def logStatus_def console_warn_def console_error_def resetUI_def
      stopAllTracks_eq)

lemma grows_stopMicIfAny [simp]: "grows s (state_of (stopMicIfAny s))"
  by (cases "micStream s") (simp_all add: stopMicIfAny_def grows_refl)

lemma grows_await: "grows s (state_of (await c answer s))"
  by (cases answer) (simp_all add: await_def grows_def)

lemma grows_acquire: "grows s (state_of (acquire c answer s))"
  by (cases answer) (simp_all add: acquire_def await_def grows_def)

lemma grows_recorder_start: "grows s (state_of (recorder_start s))"
proof (cases "recorder s")
  case None
  then show ?thesis by (simp add: recorder_start_def grows_refl)
next
  case (Some r)
  have "grows s (state_of (platform_call RecorderStart
      (\<lambda>s. s\<lparr>recorder := Some (r\<lparr>rec_state := Recording\<rparr>)\<rparr>) s))"
    by (rule grows_platform_call) (simp add: grows_def)
  with Some show ?thesis by (simp add: recorder_start_def)
qed

lemma grows_buttons [simp]:
  "grows s (s\<lparr>startBtn_disabled := a, stopBtn_disabled := b\<rparr>)"
  by (simp add: grows_def)

lemma grows_flow_from_step7: "grows s (state_of (flow_from_step7 s))"
  unfolding flow_from_step7_def
  by (rule grows_case [OF grows_recorder_start]; rule grows_block) auto

lemma grows_new_MediaRecorder: "grows s (state_of (new_MediaRecorder options s))"
  unfolding new_MediaRecorder_def
  by (rule grows_andThen, rule grows_platform_call) (simp_all add: grows_refl)

lemma grows_isTypeSupported_query: "grows s (state_of (isTypeSupported_query env m s))"
  unfolding isTypeSupported_query_def
  by (cases "isTypeSupported env")
    (auto simp add: grows_refl intro!: grows_andThen grows_platform_call)

lemma grows_firstSupported: "grows s (state_of (firstSupported env ms s))"
proof (induction ms arbitrary: s)
  case Nil
  show ?case by (simp add: console_warn_def grows_def)
next
  case (Cons m ms)
  show ?case
    unfolding firstSupported.simps
    by (rule grows_andThen, rule grows_tryCatch, rule grows_isTypeSupported_query)
      (simp_all add: console_warn_def grows_def Cons [unfolded grows_def])
qed

lemma grows_flow_from_step5: "grows s (state_of (flow_from_step5 env s))"
  unfolding flow_from_step5_def getSupportedMimeType_def
proof (rule grows_andThen [OF grows_firstSupported])
  fix mimeType s1
  show "grows s1 (state_of (case new_MediaRecorder (if mimeType \<noteq> [] then Some mimeType else None) s1 of
            Returns r s2 \<Rightarrow> flow_from_step7 (s2\<lparr>recorder := Some r, recordedChunks := []\<rparr>)
          | Throws err s2 \<Rightarrow>
              block
                [console_error ''MediaRecorder creation failed:'',
                 logStatus (''Recording failed: '' @ errorText err),
                 (\<lambda>s. stopAllTracks (combinedStream s) s),
                 (\<lambda>s. stopAllTracks (displayStream s) s),
                 stopMicIfAny,
                 resetUI] s2))"
  proof (rule grows_case [OF grows_new_MediaRecorder])
    fix r s2
    have "grows s2 (s2\<lparr>recorder := Some r, recordedChunks := []\<rparr>)" by (simp add: grows_def)
    then show "grows s2 (state_of (flow_from_step7 (s2\<lparr>recorder := Some r, recordedChunks := []\<rparr>)))"
      by (rule grows_trans) (rule grows_flow_from_step7)
  next
    fix err s2
    show "grows s2 (state_of (block
                [console_error ''MediaRecorder creation failed:'',
                 logStatus (''Recording failed: '' @ errorText err),
                 (\<lambda>s. stopAllTracks (combinedStream s) s),
                 (\<lambda>s. stopAllTracks (displayStream s) s),
                 stopMicIfAny,
                 resetUI] s2))"
      by (rule grows_block) auto
  qed
qed

lemma grows_connectAudioSource: "grows s (state_of (connectAudioSource c stream s))"
proof (cases stream)
  case None
  then show ?thesis by (simp add: connectAudioSource_def grows_refl)
next
  case (Some st)
  have "grows s (state_of (tryCatch
      (platform_call (CreateMediaStreamSource c (getAudioTracks st)) (\<lambda>s. s) s)
      (\<lambda>e. console_warn ''Could not create MediaStreamSource:'')))"
    by (rule grows_tryCatch, rule grows_platform_call) (simp_all add: grows_refl)
  with Some show ?thesis by (simp add: connectAudioSource_def grows_refl)
qed

lemma grows_new_AudioContext: "grows s (state_of (new_AudioContext s))"
  unfolding new_AudioContext_def
  by (rule grows_andThen, rule grows_platform_call) (simp_all add: grows_def)

lemma grows_createMediaStreamDestination:
  "grows s (state_of (createMediaStreamDestination env c s))"
  by (simp add: createMediaStreamDestination_def grows_def)

lemma grows_createCombinedStream:
  "grows s (state_of (createCombinedStreamUsingAudioContext env display mic s))"
proof (cases display)
  case None
  then show ?thesis by (simp add: createCombinedStreamUsingAudioContext_def grows_refl)
next
  case (Some ds)
  show ?thesis
    unfolding createCombinedStreamUsingAudioContext_def Some option.case Let_def
    by (auto simp add: grows_refl
        intro!: grows_andThen grows_new_AudioContext grows_createMediaStreamDestination
          grows_connectAudioSource)
qed

lemma grows_flow_from_step3: "grows s (state_of (flow_from_step3 env s))"
  unfolding flow_from_step3_def
proof (rule grows_case [OF grows_createCombinedStream])
  fix out s1
  have "grows s1 (s1\<lparr>combinedStream := Some out, preview_srcObject := Some out, preview_muted := True\<rparr>)"
    by (simp add: grows_def)
  then show "grows s1 (state_of (flow_from_step5 env
      (s1\<lparr>combinedStream := Some out, preview_srcObject := Some out, preview_muted := True\<rparr>)))"
    by (rule grows_trans) (rule grows_flow_from_step5)
next
  fix err s1
  show "grows s1 (state_of (block
            [console_error ''Failed to create combined stream:'',
             logStatus (''Failed to prepare audio mixing: '' @ errorText err),
             (\<lambda>s. stopAllTracks (displayStream s) s),
             stopMicIfAny,
             resetUI] s1))"
    by (rule grows_block) auto
qed

lemma grows_attachDisplayEndHandlers: "grows s (state_of (attachDisplayEndHandlers stream s))"
proof (cases stream)
  case None
  then show ?thesis by (simp add: attachDisplayEndHandlers_def grows_refl)
next
  case (Some ds)
  then show ?thesis
    by (cases "getVideoTracks ds") (simp_all add: attachDisplayEndHandlers_def grows_def console_warn_def)
qed

lemma grows_flow_from_step2: "grows s (state_of (flow_from_step2 env s))"
  unfolding flow_from_step2_def
proof (rule grows_case)
  show "grows s (state_of (andThen (acquire (GetDisplayMedia (includeSystemAudio env)) (getDisplayMedia env) s)
          (\<lambda>stream s. let s' = s\<lparr>displayStream := Some stream\<rparr> in attachDisplayEndHandlers (displayStream s') s')))"
  proof (rule grows_andThen [OF grows_acquire])
    fix stream s1
    have "grows s1 (s1\<lparr>displayStream := Some stream\<rparr>)" by (simp add: grows_def)
    then show "grows s1 (state_of (let s' = s1\<lparr>displayStream := Some stream\<rparr>
        in attachDisplayEndHandlers (displayStream s') s'))"
      unfolding Let_def by (rule grows_trans) (rule grows_attachDisplayEndHandlers)
  qed
next
  fix v s1
  show "grows s1 (state_of (flow_from_step3 env s1))" by (rule grows_flow_from_step3)
next
  fix err s1
  have mic: "grows s2 (state_of (case micStream s2 of
                     None \<Rightarrow> Returns () s2
                   | Some m \<Rightarrow>
                       andThen (stopAllTracks (Some m) s2)
                         (\<lambda>_ s. Returns () (s\<lparr>micStream := None\<rparr>))))" for s2
    by (cases "micStream s2") (simp_all add: grows_refl stopAllTracks_eq grows_def)
  have log: "grows s2 (state_of (if \<not> isUserCancellation err then
                     block
                       [console_warn ''Display capture failed:'',
                        logStatus (''Failed to start display capture: '' @ errorText err)] s2
                   else logStatus ''Ready. Screen sharing was cancelled.'' s2))" for s2
    by (simp add: logStatus_def console_warn_def grows_def)
  show "grows s1 (state_of (block
            [(\<lambda>s. if \<not> isUserCancellation err then
                     block
                       [console_warn ''Display capture failed:'',
                        logStatus (''Failed to start display capture: '' @ errorText err)] s
                   else logStatus ''Ready. Screen sharing was cancelled.'' s),
             (\<lambda>s. case micStream s of
                     None \<Rightarrow> Returns () s
                   | Some m \<Rightarrow>
                       andThen (stopAllTracks (Some m) s)
                         (\<lambda>_ s. Returns () (s\<lparr>micStream := None\<rparr>))),
             resetUI] s1))"
    by (rule grows_block) (use mic log in auto)
qed

lemma transient_failure_offers_choice:
  assumes fails: "mic_request_fails env" and transient: "permissionState env \<noteq> Some ''denied''"
  shows "ConfirmDialog \<in> set (new_calls s (state_of (startRecordingFlow env s)))"
    and "\<not> settingsInstructions_shown (state_of (startRecordingFlow env s))"
proof -
  from fails obtain err where mic: "includeMic env" "getUserMedia env = Inl err"
    by (auto simp add: mic_request_fails_def split: sum.splits)
  have "ConfirmDialog \<in> set (new_calls s (state_of (startRecordingFlow env s))) \<and>
    \<not> settingsInstructions_shown (state_of (startRecordingFlow env s))"
  proof (cases "confirm env")
    case False
    with fails transient have "declines_without_mic env"
      by (simp add: declines_without_mic_def)
    then show ?thesis
      by (simp add: start_declined new_calls_def)
  next
    case True
    let ?mid = "s\<lparr>startBtn_disabled := True, stopBtn_disabled := True,
          settingsInstructions_shown := False, status := ''Preparing...'',
          console := console s @ [ConsoleError ''Microphone request failed:''] @ permissionWarnings env,
          calls := calls s @ [GetUserMedia] @ permissionCalls env @ [ConfirmDialog],
          micStream := None\<rparr>"
    have start: "startRecordingFlow env s = flow_from_step2 env ?mid"
      by (rule start_continue_without_mic [OF mic transient True])
    have "grows ?mid (state_of (flow_from_step2 env ?mid))"
      by (rule grows_flow_from_step2)
    then obtain cs where
      "calls (state_of (flow_from_step2 env ?mid)) = calls ?mid @ cs"
      "settingsInstructions_shown (state_of (flow_from_step2 env ?mid)) = settingsInstructions_shown ?mid"
      unfolding grows_def by blast
    then show ?thesis
      unfolding start by (simp add: new_calls_def)
  qed
  then show "ConfirmDialog \<in> set (new_calls s (state_of (startRecordingFlow env s)))"
    and "\<not> settingsInstructions_shown (state_of (startRecordingFlow env s))"
    by simp_all
qed

text \<open>
  Claim C8. The microphone was wanted and its request failed. If the permission state
  that is then queried is \<^verbatim>\<open>'denied'\<close>, the flow returns: the instructions are shown,
  the status says that the permission is denied, the interface is idle, and the only
  calls made were the microphone request and the permission query, so neither the
  display capture nor the mixing was started, and no stream, track, context, timer or
  recorder changed. The \<^verbatim>\<open>confirm\<close> dialog is shown if and only if the queried state is
  not \<^verbatim>\<open>'denied'\<close>.
\<close>

theorem permanent_denial_stops_flow:
  assumes fails: "mic_request_fails env"
  shows "let s' = state_of (startRecordingFlow env s) in
     (permissionState env = Some ''denied'' \<longrightarrow>
        startRecordingFlow env s = Returns () s' \<and>
        settingsInstructions_shown s' \<and> settingsInstructions_text s' = instructions \<and>
        status s' = ''Microphone permission is denied.'' \<and> idle_ui s' \<and>
        new_calls s s' = [GetUserMedia, PermissionsQuery] \<and>
        micStream s' = None \<and> displayStream s' = displayStream s \<and>
        combinedStream s' = combinedStream s \<and> recorder s' = recorder s \<and>
        liveTracks s' = liveTracks s \<and> openContexts s' = openContexts s \<and>
        intervals s' = intervals s) \<and>
     (ConfirmDialog \<in> set (new_calls s s') \<longleftrightarrow> permissionState env \<noteq> Some ''denied'')"
proof (cases "permissionState env = Some ''denied''")
  case True
  with fails have denied: "denied_permanently env"
    by (simp add: denied_permanently_def)
  from True have query: "permissionCalls env = [PermissionsQuery]"
    by (auto simp add: permissionState_def permissionCalls_def split: option.splits sum.splits)
  show ?thesis
    using True by (simp add: start_denied [OF denied] query new_calls_def idle_ui_def)
next
  case False
  then show ?thesis
    using transient_failure_offers_choice(1) [OF fails False] by simp
qed

text \<open>A denied permission, and one that still prompts.\<close>

theorem permanent_denial_stops_flow_witness:
  "mic_request_fails (env_granted\<lparr>getUserMedia := Inl notAllowed, permissions := Some (Inr (Some ''denied''))\<rparr>) \<and>
   permissionState (env_granted\<lparr>getUserMedia := Inl notAllowed, permissions := Some (Inr (Some ''denied''))\<rparr>) =
     Some ''denied'' \<and>
   new_calls page_loaded (state_of (startRecordingFlow
       (env_granted\<lparr>getUserMedia := Inl notAllowed, permissions := Some (Inr (Some ''denied''))\<rparr>)
       page_loaded)) = [GetUserMedia, PermissionsQuery] \<and>
   settingsInstructions_shown (state_of (startRecordingFlow
       (env_granted\<lparr>getUserMedia := Inl notAllowed, permissions := Some (Inr (Some ''denied''))\<rparr>)
       page_loaded)) \<and>
   mic_request_fails (env_granted\<lparr>getUserMedia := Inl notAllowed, permissions := Some (Inr (Some ''prompt''))\<rparr>) \<and>
   permissionState (env_granted\<lparr>getUserMedia := Inl notAllowed, permissions := Some (Inr (Some ''prompt''))\<rparr>) \<noteq>
     Some ''denied'' \<and>
   ConfirmDialog \<in> set (new_calls page_loaded (state_of (startRecordingFlow
       (env_granted\<lparr>getUserMedia := Inl notAllowed, permissions := Some (Inr (Some ''prompt''))\<rparr>)
       page_loaded)))"
proof -
  let ?D = "env_granted\<lparr>getUserMedia := Inl notAllowed, permissions := Some (Inr (Some ''denied''))\<rparr>"
  let ?P = "env_granted\<lparr>getUserMedia := Inl notAllowed, permissions := Some (Inr (Some ''prompt''))\<rparr>"
  have fails: "mic_request_fails ?D" "mic_request_fails ?P"
    by (simp_all add: mic_request_fails_def env_granted_def)
  have perm: "permissionState ?D = Some ''denied''" "permissionState ?P \<noteq> Some ''denied''"
    by (simp_all add: permissionState_def)
  show ?thesis
    using permanent_denial_stops_flow [OF fails(1), of page_loaded]
      permanent_denial_stops_flow [OF fails(2), of page_loaded] fails perm
    by (simp add: Let_def)
qed

text \<open>
  Claim C10. When the Permissions API is absent or its query is rejected,
  \<^verbatim>\<open>checkMicPermissionState\<close> returns \<^verbatim>\<open>null\<close>; and when the microphone request has failed
  in that situation, the \<^verbatim>\<open>confirm\<close> dialog is shown and the instructions for a denied
  permission are not.
\<close>

theorem indeterminate_permission_is_transient:
  assumes unknown: "permissions env = None \<or> (\<exists>e. permissions env = Some (Inl e))"
  shows "(\<exists>s1. checkMicPermissionState env s = Returns None s1) \<and>
     (mic_request_fails env \<longrightarrow>
        (let s' = state_of (startRecordingFlow env s) in
           ConfirmDialog \<in> set (new_calls s s') \<and> \<not> settingsInstructions_shown s'))"
proof -
  from unknown have null: "permissionState env = None"
    by (auto simp add: permissionState_def)
  then have transient: "permissionState env \<noteq> Some ''denied''" by simp
  have "\<exists>s1. checkMicPermissionState env s = Returns None s1"
    by (simp add: checkMicPermissionState_eq null)
  then show ?thesis
    using transient_failure_offers_choice [OF _ transient] by (simp add: Let_def)
qed

text \<open>No Permissions API.\<close>

theorem indeterminate_permission_is_transient_witness:
  "(permissions (env_granted\<lparr>getUserMedia := Inl notAllowed, permissions := None\<rparr>) = None \<or>
    (\<exists>e. permissions (env_granted\<lparr>getUserMedia := Inl notAllowed, permissions := None\<rparr>) = Some (Inl e))) \<and>
   mic_request_fails (env_granted\<lparr>getUserMedia := Inl notAllowed, permissions := None\<rparr>) \<and>
   (\<exists>s1. checkMicPermissionState (env_granted\<lparr>getUserMedia := Inl notAllowed, permissions := None\<rparr>)
            page_loaded = Returns None s1) \<and>
   ConfirmDialog \<in> set (new_calls page_loaded (state_of (startRecordingFlow
       (env_granted\<lparr>getUserMedia := Inl notAllowed, permissions := None\<rparr>) page_loaded))) \<and>
   \<not> settingsInstructions_shown (state_of (startRecordingFlow
       (env_granted\<lparr>getUserMedia := Inl notAllowed, permissions := None\<rparr>) page_loaded))"
proof -
  let ?E = "env_granted\<lparr>getUserMedia := Inl notAllowed, permissions := None\<rparr>"
  have unknown: "permissions ?E = None \<or> (\<exists>e. permissions ?E = Some (Inl e))"
    by simp
  have fails: "mic_request_fails ?E"
    by (simp add: mic_request_fails_def env_granted_def)
  show ?thesis
    using indeterminate_permission_is_transient [OF unknown, of page_loaded] fails
    by (simp add: Let_def)
qed

section \<open>Properties of the mixer\<close>

lemma connectAudioSource_eq:
  "connectAudioSource c stream s =
     Returns ()
       (s\<lparr>calls := calls s @ (if audioOf stream = [] then [] else [CreateMediaStreamSource c (audioOf stream)]),
          console := console s @
            (if audioOf stream \<noteq> [] \<and> throws s (CreateMediaStreamSource c (audioOf stream)) \<noteq> None
             then [ConsoleWarn ''Could not create MediaStreamSource:''] else [])\<rparr>)"
proof (cases stream)
  case None
  then show ?thesis by (simp add: connectAudioSource_def audioOf_def)
next
  case (Some st)
  show ?thesis
  proof (cases "getAudioTracks st = []")
    case True
    with Some show ?thesis by (simp add: connectAudioSource_def audioOf_def)
  next
    case False
    with Some show ?thesis
      by (cases "throws s (CreateMediaStreamSource c (getAudioTracks st))")
        (simp_all add: connectAudioSource_def audioOf_def platform_call_def console_warn_def)
  qed
qed

lemma mixer_without_audio:
  assumes "getAudioTracks ds = []" "audioOf mic = []"
  shows "createCombinedStreamUsingAudioContext env (Some ds) mic s =
     Returns \<lparr>tracks = map (Pair Video) (take 1 (getVideoTracks ds)), audioContext = None,
               audioDestination = None, shareEndPollId = None\<rparr> s"
proof -
  have v: "(case getVideoTracks ds of [] \<Rightarrow> [] | videoTrack # _ \<Rightarrow> [(Video, videoTrack)]) =
      map (Pair Video) (take 1 (getVideoTracks ds))"
    by (cases "getVideoTracks ds") simp_all
  from assms show ?thesis
    by (cases mic) (simp_all add: createCombinedStreamUsingAudioContext_def audioOf_def v)
qed

lemma mixer_constructor_throws:
  assumes "getAudioTracks ds \<noteq> [] \<or> audioOf mic \<noteq> []" "throws s NewAudioContext = Some e"
  shows "createCombinedStreamUsingAudioContext env (Some ds) mic s =
     Throws e (s\<lparr>calls := calls s @ [NewAudioContext]\<rparr>)"
  using assms
  by (cases mic)
    (auto simp add: createCombinedStreamUsingAudioContext_def audioOf_def new_AudioContext_def
      platform_call_def)

lemma mixer_with_audio:
  assumes "getAudioTracks ds \<noteq> [] \<or> audioOf mic \<noteq> []" "throws s NewAudioContext = None"
  shows "createCombinedStreamUsingAudioContext env (Some ds) mic s =
     Returns
       \<lparr>tracks = map (Pair Video) (take 1 (getVideoTracks ds))
                  @ map (Pair Audio) (take 1 (destinationTracks env)),
        audioContext = Some (nextId s), audioDestination = Some (Suc (nextId s)),
        shareEndPollId = None\<rparr>
       (s\<lparr>calls := calls s @ [NewAudioContext, CreateMediaStreamDestination (nextId s)]
             @ (if getAudioTracks ds = [] then [] else [CreateMediaStreamSource (nextId s) (getAudioTracks ds)])
             @ (if audioOf mic = [] then [] else [CreateMediaStreamSource (nextId s) (audioOf mic)]),
          openContexts := insert (nextId s) (openContexts s),
          liveTracks := liveTracks s \<union> set (destinationTracks env),
          nextId := Suc (Suc (nextId s)),
          console := console s
             @ (if getAudioTracks ds \<noteq> [] \<and> throws s (CreateMediaStreamSource (nextId s) (getAudioTracks ds)) \<noteq> None
                then [ConsoleWarn ''Could not create MediaStreamSource:''] else [])
             @ (if audioOf mic \<noteq> [] \<and> throws s (CreateMediaStreamSource (nextId s) (audioOf mic)) \<noteq> None
                then [ConsoleWarn ''Could not create MediaStreamSource:''] else [])\<rparr>)"
proof -
  have v: "(case getVideoTracks ds of [] \<Rightarrow> [] | videoTrack # _ \<Rightarrow> [(Video, videoTrack)]) =
      map (Pair Video) (take 1 (getVideoTracks ds))"
    by (cases "getVideoTracks ds") simp_all
  have a: "(case destinationTracks env of [] \<Rightarrow> [] | mixedAudioTrack # _ \<Rightarrow> [(Audio, mixedAudioTrack)]) =
      map (Pair Audio) (take 1 (destinationTracks env))"
    by (cases "destinationTracks env") simp_all
  have d: "audioOf (Some ds) = getAudioTracks ds" by (simp add: audioOf_def)
  have m: "(case mic of None \<Rightarrow> False | Some ms \<Rightarrow> 0 < length (getAudioTracks ms)) = (audioOf mic \<noteq> [])"
    by (cases mic) (simp_all add: audioOf_def)
  show ?thesis
  proof (cases "audioOf mic = []")
    case True
    with assms show ?thesis
      by (simp add: createCombinedStreamUsingAudioContext_def new_AudioContext_def
          platform_call_def createMediaStreamDestination_def connectAudioSource_eq v a d m)
  next
    case False
    with assms show ?thesis
      by (simp add: createCombinedStreamUsingAudioContext_def new_AudioContext_def
          platform_call_def createMediaStreamDestination_def connectAudioSource_eq v a d m)
  qed
qed

lemma tracks_of_mixed [simp]:
  "getAudioTracks \<lparr>tracks = map (Pair Video) vs @ map (Pair Audio) as, audioContext = c,
      audioDestination = d, shareEndPollId = p\<rparr> = as"
  "getVideoTracks \<lparr>tracks = map (Pair Video) vs @ map (Pair Audio) as, audioContext = c,
      audioDestination = d, shareEndPollId = p\<rparr> = vs"
  "getAudioTracks \<lparr>tracks = map (Pair Video) vs, audioContext = c,
      audioDestination = d, shareEndPollId = p\<rparr> = []"
  "getVideoTracks \<lparr>tracks = map (Pair Video) vs, audioContext = c,
      audioDestination = d, shareEndPollId = p\<rparr> = vs"
  by (simp_all add: getAudioTracks_def getVideoTracks_def filter_map o_def)

text \<open>
  Claim C4. For a display stream and a microphone stream that may be null, whatever audio
  tracks either has: \<^verbatim>\<open>new AudioContext()\<close> is called if and only if at least one of them
  has an audio track. With none, the stream returned has no audio track and no context,
  and the state is unchanged. With one, and a constructor that does not throw, the
  function returns (also when connecting a source throws), the stream returned carries
  the new, open context and the first audio track of the destination, and a source node
  is created for exactly the streams that have an audio track, so a stream with none is
  passed over. Every stream returned has at most one audio track, and the first video
  track of the display, if any.
\<close>

theorem mixer_context_iff_audio:
  "let hasAudio = (getAudioTracks ds \<noteq> [] \<or> audioOf mic \<noteq> []);
       r = createCombinedStreamUsingAudioContext env (Some ds) mic s;
       s' = state_of r
   in (NewAudioContext \<in> set (new_calls s s') \<longleftrightarrow> hasAudio) \<and>
      (\<not> hasAudio \<longrightarrow>
         (\<exists>out. r = Returns out s \<and> audioContext out = None \<and> getAudioTracks out = [])) \<and>
      (hasAudio \<and> throws s NewAudioContext = None \<longrightarrow>
         (\<exists>out. r = Returns out s' \<and> audioContext out = Some (nextId s) \<and>
                getAudioTracks out = take 1 (destinationTracks env)) \<and>
         nextId s \<in> openContexts s' \<and>
         new_calls s s' =
           [NewAudioContext, CreateMediaStreamDestination (nextId s)]
           @ (if getAudioTracks ds = [] then []
              else [CreateMediaStreamSource (nextId s) (getAudioTracks ds)])
           @ (if audioOf mic = [] then []
              else [CreateMediaStreamSource (nextId s) (audioOf mic)])) \<and>
      (\<forall>out s''. r = Returns out s'' \<longrightarrow>
         length (getAudioTracks out) \<le> 1 \<and> getVideoTracks out = take 1 (getVideoTracks ds))"
proof (cases "getAudioTracks ds \<noteq> [] \<or> audioOf mic \<noteq> []")
  case False
  then have none: "getAudioTracks ds = []" "audioOf mic = []" by simp_all
  show ?thesis
    unfolding Let_def mixer_without_audio [OF none]
    using none by (simp add: new_calls_def)
next
  case True
  show ?thesis
  proof (cases "throws s NewAudioContext")
    case None
    show ?thesis
      unfolding Let_def mixer_with_audio [OF True None]
      using True None by (simp add: new_calls_def)
  next
    case (Some e)
    show ?thesis
      unfolding Let_def mixer_constructor_throws [OF True Some]
      using True Some by (simp add: new_calls_def)
  qed
qed

text \<open>The four combinations: audio on both, on the display only, on the microphone only, on neither.\<close>

theorem mixer_context_iff_audio_witness:
  "(let r = createCombinedStreamUsingAudioContext env_granted (Some display_example) (Some mic_example) page_loaded
    in new_calls page_loaded (state_of r) =
         [NewAudioContext, CreateMediaStreamDestination 0, CreateMediaStreamSource 0 [21],
          CreateMediaStreamSource 0 [10]] \<and>
       (\<exists>out. r = Returns out (state_of r) \<and> audioContext out = Some 0 \<and> getAudioTracks out = [30])) \<and>
   (let r = createCombinedStreamUsingAudioContext env_granted (Some display_example) None page_loaded
    in new_calls page_loaded (state_of r) =
         [NewAudioContext, CreateMediaStreamDestination 0, CreateMediaStreamSource 0 [21]] \<and>
       (\<exists>out. r = Returns out (state_of r) \<and> audioContext out = Some 0 \<and> getAudioTracks out = [30])) \<and>
   (let r = createCombinedStreamUsingAudioContext env_granted
              (Some (display_example\<lparr>tracks := [(Video, 20)]\<rparr>)) (Some mic_example) page_loaded
    in new_calls page_loaded (state_of r) =
         [NewAudioContext, CreateMediaStreamDestination 0, CreateMediaStreamSource 0 [10]] \<and>
       (\<exists>out. r = Returns out (state_of r) \<and> audioContext out = Some 0 \<and> getAudioTracks out = [30])) \<and>
   (let r = createCombinedStreamUsingAudioContext env_granted
              (Some (display_example\<lparr>tracks := [(Video, 20)]\<rparr>)) None page_loaded
    in NewAudioContext \<notin> set (new_calls page_loaded (state_of r)) \<and>
       (\<exists>out. r = Returns out page_loaded \<and> audioContext out = None \<and> getAudioTracks out = []))"
proof -
  let ?v = "display_example\<lparr>tracks := [(Video, 20)]\<rparr>"
  have audio: "getAudioTracks display_example = [21]" "audioOf (Some mic_example) = [10]"
    "getAudioTracks ?v = []" "audioOf None = []"
    by (simp_all add: examples audioOf_def)
  have platform: "throws page_loaded NewAudioContext = None" "nextId page_loaded = 0"
    "destinationTracks env_granted = [30]"
    by (simp_all add: examples)
  show ?thesis
    using mixer_context_iff_audio [of display_example "Some mic_example" env_granted page_loaded]
      mixer_context_iff_audio [of display_example None env_granted page_loaded]
      mixer_context_iff_audio [of ?v "Some mic_example" env_granted page_loaded]
      mixer_context_iff_audio [of ?v None env_granted page_loaded]
    unfolding Let_def audio platform
    by simp
qed

section \<open>Properties of a running session\<close>

lemma run_append: "run (es1 @ es2) s = run es2 (run es1 s)"
  by (induction es1 arbitrary: s) simp_all

lemma run_data:
  assumes "recorder s \<noteq> None"
  shows "run (map DataAvailable datas) s = s\<lparr>recordedChunks := recordedChunks s @ keptChunks datas\<rparr>"
  using assms
proof (induction datas arbitrary: s)
  case Nil
  then show ?case by (simp add: keptChunks_def)
next
  case (Cons data datas)
  from Cons.prems obtain r where r: "recorder s = Some r" by auto
  show ?case
  proof (cases data)
    case None
    with r Cons.IH [of s] Cons.prems show ?thesis
      by (simp add: ondataavailable_def keptChunks_def)
  next
    case (Some d)
    show ?thesis
    proof (cases "bytes d = []")
      case True
      with Some r Cons.IH [of s] Cons.prems show ?thesis
        by (simp add: ondataavailable_def keptChunks_def)
    next
      case False
      with Some r Cons.IH [of "s\<lparr>recordedChunks := recordedChunks s @ [d]\<rparr>"] show ?thesis
        by (simp add: ondataavailable_def keptChunks_def)
    qed
  qed
qed

lemma bytes_keptChunks: "concat (map bytes (keptChunks datas)) = concat (map dataBytes datas)"
proof (induction datas)
  case Nil
  then show ?case by (simp add: keptChunks_def)
next
  case (Cons data datas)
  then show ?case
    by (cases data) (simp_all add: keptChunks_def dataBytes_def)
qed

lemma stop_active:
  assumes "recorder s = Some r" "rec_state r \<noteq> Inactive" "throws s RecorderStop = None"
  shows "stopRecordingFlow s =
     Returns ()
       (s\<lparr>status := ''Stopping...'', calls := calls s @ [RecorderStop],
          recorder := Some (r\<lparr>rec_state := Inactive, stop_queued := True\<rparr>)\<rparr>)"
  using assms
  by (simp add: stopRecordingFlow_def recorder_active_def logStatus_def recorder_stop_def
      platform_call_def)

text \<open>What finalising does to the fields that the statements below speak about.\<close>

lemma handleRecorderStop_returns:
  "handleRecorderStop s = Returns () (state_of (handleRecorderStop s))"
  by (cases "throws s NewBlob";
      simp add: handleRecorderStop_def new_Blob_def platform_call_def cleanup_eq logStatus_def
        resetUI_def console_error_def alert_def)

lemma handleRecorderStop_fields:
  "recorder (state_of (handleRecorderStop s)) = recorder s"
  "recordedChunks (state_of (handleRecorderStop s)) = []"
  "throws (state_of (handleRecorderStop s)) = throws s"
  "endedListeners (state_of (handleRecorderStop s)) = endedListeners s"
  "stop_requests (state_of (handleRecorderStop s)) = stop_requests s"
  "finalizations (state_of (handleRecorderStop s)) = Suc (finalizations s)"
  "throws s NewBlob = None \<Longrightarrow>
     artifacts (state_of (handleRecorderStop s)) =
       artifacts s @ [\<lparr>bytes = concat (map bytes (recordedChunks s)), blob_type = ''video/webm''\<rparr>]"
  by (cases "throws s NewBlob";
      simp add: handleRecorderStop_def new_Blob_def platform_call_def cleanup_eq logStatus_def
        resetUI_def console_error_def alert_def stop_requests_def finalizations_def)+

text \<open>
  Claim C5. A session is recording and its list of chunks is empty, as step 6 leaves it.
  Chunks arrive, the user clicks Stop, more chunks arrive, and the recorder's \<^verbatim>\<open>stop\<close>
  event is delivered. Then exactly one blob is handed on, of type \<^verbatim>\<open>video/webm\<close>, and
  its bytes are the bytes of all the chunks in the order of arrival. (A chunk without
  data or of size 0 is not kept, and has no bytes.)
\<close>

theorem chunks_in_arrival_order:
  assumes recording: "recorder s = Some r" "rec_state r \<noteq> Inactive"
    and fresh: "recordedChunks s = []"
    and platform: "throws s RecorderStop = None" "throws s NewBlob = None"
  shows "artifacts (run (map DataAvailable before @ [StopClicked] @ map DataAvailable after @ [StopEvent]) s) =
           artifacts s @
           [\<lparr>bytes = concat (map dataBytes (before @ after)), blob_type = ''video/webm''\<rparr>]"
proof -
  let ?s1 = "s\<lparr>recordedChunks := keptChunks before\<rparr>"
  let ?r' = "r\<lparr>rec_state := Inactive, stop_queued := True\<rparr>"
  let ?s2 = "?s1\<lparr>status := ''Stopping...'', calls := calls s @ [RecorderStop], recorder := Some ?r'\<rparr>"
  let ?s3 = "?s2\<lparr>recordedChunks := keptChunks before @ keptChunks after\<rparr>"
  let ?s4 = "?s3\<lparr>recorder := Some (?r'\<lparr>stop_queued := False\<rparr>)\<rparr>"
  have 1: "run (map DataAvailable before) s = ?s1"
    using recording fresh by (simp add: run_data)
  have 2: "run [StopClicked] ?s1 = ?s2"
    using recording platform by (simp add: stop_active [where r = r])
  have 3: "run (map DataAvailable after) ?s2 = ?s3"
    by (simp add: run_data)
  have 4: "run [StopEvent] ?s3 = state_of (handleRecorderStop ?s4)"
    by simp
  have "run (map DataAvailable before @ [StopClicked] @ map DataAvailable after @ [StopEvent]) s =
      state_of (handleRecorderStop ?s4)"
    unfolding run_append 1 2 3 4 ..
  moreover have "artifacts (state_of (handleRecorderStop ?s4)) =
      artifacts ?s4 @ [\<lparr>bytes = concat (map bytes (recordedChunks ?s4)), blob_type = ''video/webm''\<rparr>]"
    by (rule handleRecorderStop_fields) (simp add: platform)
  ultimately show ?thesis
    by (simp add: bytes_keptChunks)
qed

text \<open>Two chunks and an empty one, Stop, no data and a last chunk.\<close>

theorem chunks_in_arrival_order_witness:
  "recorder recording_example = Some \<lparr>rec_state = Recording, rec_mimeType = Some ''video/webm;codecs=vp9,opus'',
                          stop_queued = False\<rparr> \<and>
   recordedChunks recording_example = [] \<and>
   throws recording_example RecorderStop = None \<and> throws recording_example NewBlob = None \<and>
   artifacts (run [DataAvailable (Some \<lparr>bytes = [1, 2], blob_type = []\<rparr>),
                   DataAvailable (Some \<lparr>bytes = [], blob_type = []\<rparr>),
                   StopClicked,
                   DataAvailable None,
                   DataAvailable (Some \<lparr>bytes = [3], blob_type = []\<rparr>),
                   StopEvent] recording_example) =
     [\<lparr>bytes = [1, 2, 3], blob_type = ''video/webm''\<rparr>]"
proof -
  let ?r = "\<lparr>rec_state = Recording, rec_mimeType = Some ''video/webm;codecs=vp9,opus'',
                          stop_queued = False\<rparr>"
  have h: "recorder recording_example = Some ?r" "rec_state ?r \<noteq> Inactive"
    "recordedChunks recording_example = []"
    "throws recording_example RecorderStop = None" "throws recording_example NewBlob = None"
    and a: "artifacts recording_example = []"
    by (simp_all add: examples)
  from chunks_in_arrival_order [OF h,
      of "[Some \<lparr>bytes = [1, 2], blob_type = []\<rparr>, Some \<lparr>bytes = [], blob_type = []\<rparr>]"
         "[None, Some \<lparr>bytes = [3], blob_type = []\<rparr>]"]
  show ?thesis
    using h a by (simp add: dataBytes_def)
qed

subsection \<open>From recording to stopping to finalised\<close>

lemma count_calls_append [simp]:
  "stop_requests (s\<lparr>calls := calls s @ cs\<rparr>) = stop_requests s + length (filter (\<lambda>c. c = RecorderStop) cs)"
  "finalizations (s\<lparr>calls := calls s @ cs\<rparr>) = finalizations s + length (filter (\<lambda>c. c = NewBlob) cs)"
  by (simp_all add: stop_requests_def finalizations_def)

lemma cleanup_fields:
  "recorder (state_of (cleanupRecordingResources s)) = recorder s"
  "stop_requests (state_of (cleanupRecordingResources s)) = stop_requests s"
  "finalizations (state_of (cleanupRecordingResources s)) = finalizations s"
  by (simp_all add: cleanup_eq stop_requests_def finalizations_def)

lemma stop_inactive_fields:
  assumes "\<not> recorder_active s"
  shows "recorder (state_of (stopRecordingFlow s)) = recorder s"
    "stop_requests (state_of (stopRecordingFlow s)) = stop_requests s"
    "finalizations (state_of (stopRecordingFlow s)) = finalizations s"
  using assms
  by (simp_all add: stopRecordingFlow_def cleanup_eq logStatus_def resetUI_def
      stop_requests_def finalizations_def)

text \<open>The two phases after recording are kept by anything that leaves the recorder and the two counts alone.\<close>

lemma stopping_phase_cong:
  assumes "stopping_phase c f s" "recorder s' = recorder s" "stop_requests s' = stop_requests s"
    "finalizations s' = finalizations s"
  shows "stopping_phase c f s'"
  using assms by (simp add: stopping_phase_def)

lemma finalized_phase_cong:
  assumes "finalized_phase c f s" "recorder s' = recorder s" "stop_requests s' = stop_requests s"
    "finalizations s' = finalizations s"
  shows "finalized_phase c f s'"
  using assms by (simp add: finalized_phase_def)

lemma inactive_not_active:
  "stopping_phase c f s \<Longrightarrow> \<not> recorder_active s"
  "finalized_phase c f s \<Longrightarrow> \<not> recorder_active s"
  by (auto simp add: stopping_phase_def finalized_phase_def recorder_active_def)

text \<open>The handlers, when the recorder is not active, leave the recorder and the counts alone.\<close>

lemma ended_handlers_inactive:
  assumes "\<not> recorder_active s"
  shows "forEach (\<lambda>_. onVideoTrackEnded) ls s = Returns () s"
  using assms by (induction ls) (simp_all add: onVideoTrackEnded_def)

lemma poll_inactive_fields:
  assumes "\<not> recorder_active s"
  shows "recorder (state_of (onPollTick vt i s)) = recorder s"
    "stop_requests (state_of (onPollTick vt i s)) = stop_requests s"
    "finalizations (state_of (onPollTick vt i s)) = finalizations s"
  using assms
  by (cases "throws s (ClearInterval i)";
      simp add: onPollTick_def clearInterval_def platform_call_def recorder_active_def
        stop_requests_def finalizations_def)+

lemma deliver_inactive_fields:
  assumes "\<not> recorder_active s" "e \<noteq> StopEvent"
  shows "recorder (state_of (deliver e s)) = recorder s"
    "stop_requests (state_of (deliver e s)) = stop_requests s"
    "finalizations (state_of (deliver e s)) = finalizations s"
proof -
  have "recorder (state_of (deliver e s)) = recorder s \<and>
    stop_requests (state_of (deliver e s)) = stop_requests s \<and>
    finalizations (state_of (deliver e s)) = finalizations s"
  proof (cases e)
    case (TrackEnds t)
    have "\<not> recorder_active (s\<lparr>liveTracks := liveTracks s - {t}\<rparr>)"
      using assms(1) by (simp add: recorder_active_def)
    then show ?thesis
      using TrackEnds by (simp add: ended_handlers_inactive stop_requests_def finalizations_def)
  next
    case (TrackEndsSilently t)
    then show ?thesis by (simp add: stop_requests_def finalizations_def)
  next
    case (TimerFires i)
    then show ?thesis
      using poll_inactive_fields [OF assms(1)]
      by (cases "map_of (intervals s) i") simp_all
  next
    case (DataAvailable data)
    then show ?thesis
      by (cases "recorder s"; cases data)
        (simp_all add: ondataavailable_def stop_requests_def finalizations_def)
  next
    case RecorderEndsByItself
    then show ?thesis
      using assms(1) by (cases "recorder s") (simp_all add: recorder_active_def)
  next
    case StopEvent
    with assms(2) show ?thesis by simp
  next
    case StopClicked
    then show ?thesis
      using stop_inactive_fields [OF assms(1)] by simp
  qed
  then show "recorder (state_of (deliver e s)) = recorder s"
    "stop_requests (state_of (deliver e s)) = stop_requests s"
    "finalizations (state_of (deliver e s)) = finalizations s"
    by simp_all
qed

lemma finalized_step:
  assumes "finalized_phase c f s"
  shows "finalized_phase c f (state_of (deliver e s))"
proof (cases "e = StopEvent")
  case True
  with assms show ?thesis by (auto simp add: finalized_phase_def)
next
  case False
  show ?thesis
    using assms deliver_inactive_fields [OF inactive_not_active(2) [OF assms] False]
    by (rule finalized_phase_cong)
qed

lemma finalized_run:
  assumes "finalized_phase c f s"
  shows "finalized_phase c f (run es s)"
  using assms by (induction es arbitrary: s) (simp_all add: finalized_step)

lemma stopping_step:
  assumes "stopping_phase c f s"
  shows "if e = StopEvent then finalized_phase c f (state_of (deliver e s))
         else stopping_phase c f (state_of (deliver e s))"
proof (cases "e = StopEvent")
  case True
  from assms obtain r where r: "recorder s = Some r" "rec_state r = Inactive" "stop_queued r"
    and counts: "stop_requests s = c" "finalizations s = f"
    by (auto simp add: stopping_phase_def)
  let ?s1 = "s\<lparr>recorder := Some (r\<lparr>stop_queued := False\<rparr>)\<rparr>"
  have "deliver StopEvent s = handleRecorderStop ?s1"
    using r by simp
  moreover have "stop_requests ?s1 = stop_requests s" "finalizations ?s1 = finalizations s"
    by (simp_all add: stop_requests_def finalizations_def)
  then have "finalized_phase c f (state_of (handleRecorderStop ?s1))"
    using r counts
    by (simp add: finalized_phase_def handleRecorderStop_fields)
  ultimately show ?thesis using True by simp
next
  case False
  have "stopping_phase c f (state_of (deliver e s))"
    using assms deliver_inactive_fields [OF inactive_not_active(1) [OF assms] False]
    by (rule stopping_phase_cong)
  with False show ?thesis by simp
qed

lemma stopping_run:
  assumes "stopping_phase c f s"
  shows "stopping_phase c f (run es s) \<or> finalized_phase c f (run es s)"
  using assms
proof (induction es arbitrary: s)
  case Nil
  then show ?case by simp
next
  case (Cons e es)
  show ?case
  proof (cases "e = StopEvent")
    case True
    with stopping_step [OF Cons.prems, of e]
    have "finalized_phase c f (state_of (deliver e s))" by simp
    then show ?thesis by (simp add: finalized_run)
  next
    case False
    with stopping_step [OF Cons.prems, of e]
    have "stopping_phase c f (state_of (deliver e s))" by simp
    then show ?thesis using Cons.IH by simp
  qed
qed

lemma stop_active_stopping:
  assumes "recording_phase v p c f s"
  shows "stopRecordingFlow s = Returns () (state_of (stopRecordingFlow s))"
    and "stopping_phase (Suc c) f (state_of (stopRecordingFlow s))"
proof -
  from assms obtain r where r: "recorder s = Some r" "rec_state r \<noteq> Inactive"
    and t: "throws s RecorderStop = None"
    and counts: "stop_requests s = c" "finalizations s = f"
    by (auto simp add: recording_phase_def)
  note eq = stop_active [OF r t]
  show "stopRecordingFlow s = Returns () (state_of (stopRecordingFlow s))"
    by (simp add: eq)
  show "stopping_phase (Suc c) f (state_of (stopRecordingFlow s))"
    using counts by (simp add: eq stopping_phase_def stop_requests_def finalizations_def)
qed

lemma recording_active: "recording_phase v p c f s \<Longrightarrow> recorder_active s"
  by (auto simp add: recording_phase_def recorder_active_def)

lemma ended_handlers_recording:
  assumes "recording_phase v p c f s" "ls \<noteq> []"
  shows "stopping_phase (Suc c) f (state_of (forEach (\<lambda>_. onVideoTrackEnded) ls s))"
proof -
  from assms(2) obtain l ls' where ls: "ls = l # ls'" by (cases ls) auto
  let ?s1 = "state_of (stopRecordingFlow s)"
  have first: "onVideoTrackEnded s = Returns () ?s1"
    using recording_active [OF assms(1)] stop_active_stopping(1) [OF assms(1)]
    by (simp add: onVideoTrackEnded_def)
  have stopping: "stopping_phase (Suc c) f ?s1"
    by (rule stop_active_stopping(2) [OF assms(1)])
  have "forEach (\<lambda>_. onVideoTrackEnded) ls s = forEach (\<lambda>_. onVideoTrackEnded) ls' ?s1"
    unfolding ls by (simp add: first)
  also have "\<dots> = Returns () ?s1"
    by (rule ended_handlers_inactive) (rule inactive_not_active(1) [OF stopping])
  finally show ?thesis using stopping by simp
qed

lemma recording_phase_cong:
  assumes "recording_phase v p c f s"
    and "recorder s' = recorder s" "throws s' = throws s" "endedListeners s' = endedListeners s"
    and "intervals s' = intervals s"
    and "stop_requests s' = stop_requests s" "finalizations s' = finalizations s"
  shows "recording_phase v p c f s'"
  using assms by (auto simp add: recording_phase_def)

lemma recording_step:
  assumes rec: "recording_phase v p c f s"
  shows "(recording_phase v p c f (state_of (deliver e s)) \<and>
            (v \<notin> liveTracks s \<or> e = TrackEndsSilently v \<longrightarrow> v \<notin> liveTracks (state_of (deliver e s)))) \<or>
         stopping_phase (Suc c) f (state_of (deliver e s)) \<or>
         (e = RecorderEndsByItself \<and> stopping_phase c f (state_of (deliver e s)))"
    and "e = TrackEnds v \<or> (e = TimerFires p \<and> v \<notin> liveTracks s) \<or> e = StopClicked \<Longrightarrow>
           stopping_phase (Suc c) f (state_of (deliver e s))"
proof -
  from rec obtain r where r: "recorder s = Some r" "rec_state r \<noteq> Inactive" "\<not> stop_queued r"
    and armed: "v \<in> set (endedListeners s)" "map_of (intervals s) p = Some v"
      "throws s (ClearInterval p) = None"
    and counts: "stop_requests s = c" "finalizations s = f"
    by (auto simp add: recording_phase_def)
  have "((recording_phase v p c f (state_of (deliver e s)) \<and>
            (v \<notin> liveTracks s \<or> e = TrackEndsSilently v \<longrightarrow> v \<notin> liveTracks (state_of (deliver e s)))) \<or>
         stopping_phase (Suc c) f (state_of (deliver e s)) \<or>
         (e = RecorderEndsByItself \<and> stopping_phase c f (state_of (deliver e s)))) \<and>
    (e = TrackEnds v \<or> (e = TimerFires p \<and> v \<notin> liveTracks s) \<or> e = StopClicked \<longrightarrow>
       stopping_phase (Suc c) f (state_of (deliver e s)))"
  proof (cases e)
    case (TrackEnds t)
    let ?s1 = "s\<lparr>liveTracks := liveTracks s - {t}\<rparr>"
    let ?ls = "filter (\<lambda>l. l = t) (endedListeners s)"
    have rec1: "recording_phase v p c f ?s1"
      using rec by (rule recording_phase_cong) (auto simp add: stop_requests_def finalizations_def)
    show ?thesis
    proof (cases "?ls = []")
      case True
      then have "t \<noteq> v" using armed(1) by (auto simp add: filter_empty_conv)
      with True rec1 TrackEnds show ?thesis by simp
    next
      case False
      have "stopping_phase (Suc c) f (state_of (forEach (\<lambda>_. onVideoTrackEnded) ?ls ?s1))"
        by (rule ended_handlers_recording [OF rec1 False])
      with TrackEnds have "stopping_phase (Suc c) f (state_of (deliver e s))" by simp
      then show ?thesis by simp
    qed
  next
    case (TrackEndsSilently t)
    have "recording_phase v p c f (s\<lparr>liveTracks := liveTracks s - {t}\<rparr>)"
      using rec by (rule recording_phase_cong) (auto simp add: stop_requests_def finalizations_def)
    with TrackEndsSilently show ?thesis by simp
  next
    case (TimerFires i)
    show ?thesis
    proof (cases "map_of (intervals s) i")
      case None
      with armed(2) have "i \<noteq> p" by auto
      with None TimerFires rec show ?thesis by simp
    next
      case (Some vt)
      show ?thesis
      proof (cases "vt \<in> liveTracks s")
        case True
        with Some armed have "i = p \<longrightarrow> v \<in> liveTracks s" by auto
        with True Some TimerFires rec show ?thesis by (auto simp add: onPollTick_def)
      next
        case False
        show ?thesis
        proof (cases "throws s (ClearInterval i)")
          case (Some err)
          with armed(3) have ne: "i \<noteq> p" by auto
          have "recording_phase v p c f (s\<lparr>calls := calls s @ [ClearInterval i]\<rparr>)"
            using rec by (rule recording_phase_cong) simp_all
          with Some \<open>map_of (intervals s) i = Some vt\<close> False TimerFires ne show ?thesis
            by (simp add: onPollTick_def clearInterval_def platform_call_def)
        next
          case None
          let ?s1 = "s\<lparr>calls := calls s @ [ClearInterval i],
                       intervals := filter (\<lambda>q. fst q \<noteq> i) (intervals s)\<rparr>"
          have "(\<exists>r. recorder ?s1 = Some r \<and> rec_state r \<noteq> Inactive \<and> \<not> stop_queued r) \<and>
              throws ?s1 RecorderStop = None \<and> stop_requests ?s1 = c \<and> finalizations ?s1 = f"
            using rec by (auto simp add: recording_phase_def stop_requests_def finalizations_def)
          then obtain r1 where r1: "recorder ?s1 = Some r1" "rec_state r1 \<noteq> Inactive"
            and t1: "throws ?s1 RecorderStop = None"
            and c1: "stop_requests ?s1 = c" "finalizations ?s1 = f"
            by blast
          have act: "recorder_active ?s1" using r1 by (simp add: recorder_active_def)
          have "stopping_phase (Suc c) f (state_of (stopRecordingFlow ?s1))"
            unfolding stop_active [OF r1 t1]
            using c1 by (simp add: stopping_phase_def stop_requests_def finalizations_def)
          moreover have "deliver e s = stopRecordingFlow ?s1"
            using None \<open>map_of (intervals s) i = Some vt\<close> False TimerFires act
            by (simp add: onPollTick_def clearInterval_def platform_call_def)
          ultimately have "stopping_phase (Suc c) f (state_of (deliver e s))" by simp
          then show ?thesis by simp
        qed
      qed
    qed
  next
    case (DataAvailable data)
    have "recording_phase v p c f (s\<lparr>recordedChunks := x\<rparr>)" for x
      using rec by (rule recording_phase_cong) (simp_all add: stop_requests_def finalizations_def)
    with DataAvailable r rec show ?thesis
      by (cases data) (simp_all add: ondataavailable_def)
  next
    case RecorderEndsByItself
    have "stopping_phase c f (s\<lparr>recorder := Some (r\<lparr>rec_state := Inactive, stop_queued := True\<rparr>)\<rparr>)"
      using counts by (simp add: stopping_phase_def stop_requests_def finalizations_def)
    with RecorderEndsByItself r show ?thesis by simp
  next
    case StopEvent
    with r rec show ?thesis by simp
  next
    case StopClicked
    with stop_active_stopping(2) [OF rec]
    have "stopping_phase (Suc c) f (state_of (deliver e s))" by simp
    then show ?thesis by simp
  qed
  then show "(recording_phase v p c f (state_of (deliver e s)) \<and>
            (v \<notin> liveTracks s \<or> e = TrackEndsSilently v \<longrightarrow> v \<notin> liveTracks (state_of (deliver e s)))) \<or>
         stopping_phase (Suc c) f (state_of (deliver e s)) \<or>
         (e = RecorderEndsByItself \<and> stopping_phase c f (state_of (deliver e s)))"
    and "e = TrackEnds v \<or> (e = TimerFires p \<and> v \<notin> liveTracks s) \<or> e = StopClicked \<Longrightarrow>
           stopping_phase (Suc c) f (state_of (deliver e s))"
    by simp_all
qed

text \<open>
  From recording, a run of events either stays in recording, and then the end of the track
  has not been detected, or has gone on to stopping or finalised, with one more stop
  request, or with none more if the recorder has stopped by itself.
\<close>

lemma recording_run:
  assumes "recording_phase v p c f s" "ended \<longrightarrow> v \<notin> liveTracks s"
  shows "(recording_phase v p c f (run es s) \<and> \<not> detected v p ended es) \<or>
         (\<exists>n. (n = Suc c \<or> n = c \<and> RecorderEndsByItself \<in> set es) \<and>
              (stopping_phase n f (run es s) \<or> finalized_phase n f (run es s)))"
  using assms
proof (induction es arbitrary: s ended)
  case Nil
  then show ?case by simp
next
  case (Cons e es)
  let ?s1 = "state_of (deliver e s)"
  have later: ?case if "stopping_phase n f ?s1" "n = Suc c \<or> n = c \<and> e = RecorderEndsByItself" for n
  proof -
    from stopping_run [OF that(1), of es]
    have "stopping_phase n f (run (e # es) s) \<or> finalized_phase n f (run (e # es) s)" by simp
    with that(2) show ?thesis by auto
  qed
  show ?case
  proof (cases "e = TrackEnds v \<or> (ended \<and> e = TimerFires p)")
    case True
    with Cons.prems(2) have "e = TrackEnds v \<or> (e = TimerFires p \<and> v \<notin> liveTracks s) \<or> e = StopClicked"
      by blast
    then have "stopping_phase (Suc c) f ?s1"
      by (rule recording_step(2) [OF Cons.prems(1)])
    then show ?thesis by (rule later) simp
  next
    case False
    from recording_step(1) [OF Cons.prems(1), of e]
    consider "recording_phase v p c f ?s1"
        "v \<notin> liveTracks s \<or> e = TrackEndsSilently v \<longrightarrow> v \<notin> liveTracks ?s1"
      | "stopping_phase (Suc c) f ?s1"
      | "e = RecorderEndsByItself" "stopping_phase c f ?s1"
      by blast
    then show ?thesis
    proof cases
      case 1
      have "ended \<or> e = TrackEndsSilently v \<longrightarrow> v \<notin> liveTracks ?s1"
        using 1(2) Cons.prems(2) by blast
      from Cons.IH [OF 1(1) this] False show ?thesis by auto
    next
      case 2
      then show ?thesis by (rule later) simp
    next
      case 3
      from 3(2) show ?thesis by (rule later) (simp add: 3(1))
    qed
  qed
qed

section \<open>Properties of format negotiation\<close>

lemma firstSupported_find:
  "\<exists>s'. firstSupported env ms s =
      Returns (case isTypeSupported env of
                 None \<Rightarrow> []
               | Some supported \<Rightarrow>
                   (case find (\<lambda>m. throws s (IsTypeSupported m) = None \<and> supported m) ms of
                      None \<Rightarrow> [] | Some m \<Rightarrow> m)) s' \<and>
      throws s' = throws s"
proof (induction ms arbitrary: s)
  case Nil
  show ?case by (cases "isTypeSupported env") (simp_all add: console_warn_def)
next
  case (Cons m ms)
  show ?case
  proof (cases "isTypeSupported env")
    case None
    with Cons.IH [of s] show ?thesis
      by (auto simp add: isTypeSupported_query_def)
  next
    case (Some supported)
    show ?thesis
    proof (cases "throws s (IsTypeSupported m)")
      case e: (Some e)
      let ?s1 = "s\<lparr>calls := calls s @ [IsTypeSupported m],
                   console := console s @ [ConsoleWarn ''Error checking MIME type:'']\<rparr>"
      from Cons.IH [of ?s1] Some e show ?thesis
        by (auto simp add: isTypeSupported_query_def platform_call_def console_warn_def)
    next
      case None
      let ?s1 = "s\<lparr>calls := calls s @ [IsTypeSupported m]\<rparr>"
      show ?thesis
      proof (cases "supported m")
        case True
        with Some None show ?thesis
          by (simp add: isTypeSupported_query_def platform_call_def)
      next
        case False
        with Cons.IH [of ?s1] Some None show ?thesis
          by (auto simp add: isTypeSupported_query_def platform_call_def)
      qed
    qed
  qed
qed

lemma getSupportedMimeType_negotiated:
  "\<exists>s'. getSupportedMimeType env s = Returns (negotiated env s) s' \<and> throws s' = throws s"
  unfolding getSupportedMimeType_def negotiated_def by (rule firstSupported_find)

text \<open>
  The recorder is constructed with the negotiated format, or without options when there
  is none; construction is the only thing in steps 5 and 6 that can fail.
\<close>

lemma recorder_constructed_with_negotiated_format:
  "\<exists>s1. (\<exists>cs. calls s1 = calls s @ cs) \<and>
     flow_from_step5 env s =
       (case throws s (NewMediaRecorder (if negotiated env s \<noteq> [] then Some (negotiated env s) else None)) of
          None \<Rightarrow>
            flow_from_step7
              (s1\<lparr>calls := calls s1 @ [NewMediaRecorder (if negotiated env s \<noteq> [] then Some (negotiated env s) else None)],
                  recorder := Some \<lparr>rec_state = Inactive,
                                    rec_mimeType = (if negotiated env s \<noteq> [] then Some (negotiated env s) else None),
                                    stop_queued = False\<rparr>,
                  recordedChunks := []\<rparr>)
        | Some err \<Rightarrow>
            block
              [console_error ''MediaRecorder creation failed:'',
               logStatus (''Recording failed: '' @ errorText err),
               (\<lambda>s. stopAllTracks (combinedStream s) s),
               (\<lambda>s. stopAllTracks (displayStream s) s),
               stopMicIfAny,
               resetUI]
              (s1\<lparr>calls := calls s1 @ [NewMediaRecorder (if negotiated env s \<noteq> [] then Some (negotiated env s) else None)]\<rparr>))"
proof -
  from getSupportedMimeType_negotiated [of env s]
  obtain s1 where s1: "getSupportedMimeType env s = Returns (negotiated env s) s1" "throws s1 = throws s"
    by blast
  have "grows s (state_of (getSupportedMimeType env s))"
    unfolding getSupportedMimeType_def by (rule grows_firstSupported)
  then have "\<exists>cs. calls s1 = calls s @ cs"
    by (simp add: s1 grows_def)
  moreover have "flow_from_step5 env s =
       (case throws s (NewMediaRecorder (if negotiated env s \<noteq> [] then Some (negotiated env s) else None)) of
          None \<Rightarrow>
            flow_from_step7
              (s1\<lparr>calls := calls s1 @ [NewMediaRecorder (if negotiated env s \<noteq> [] then Some (negotiated env s) else None)],
                  recorder := Some \<lparr>rec_state = Inactive,
                                    rec_mimeType = (if negotiated env s \<noteq> [] then Some (negotiated env s) else None),
                                    stop_queued = False\<rparr>,
                  recordedChunks := []\<rparr>)
        | Some err \<Rightarrow>
            block
              [console_error ''MediaRecorder creation failed:'',
               logStatus (''Recording failed: '' @ errorText err),
               (\<lambda>s. stopAllTracks (combinedStream s) s),
               (\<lambda>s. stopAllTracks (displayStream s) s),
               stopMicIfAny,
               resetUI]
              (s1\<lparr>calls := calls s1 @ [NewMediaRecorder (if negotiated env s \<noteq> [] then Some (negotiated env s) else None)]\<rparr>))"
    by (cases "throws s (NewMediaRecorder (if negotiated env s \<noteq> [] then Some (negotiated env s) else None))")
      (simp_all add: flow_from_step5_def s1 new_MediaRecorder_def platform_call_def)
  ultimately show ?thesis by blast
qed

lemmas flow_defs = startRecordingFlow_def flow_from_step2_def flow_from_step3_def flow_from_step5_def
  flow_from_step7_def acquire_def await_def attachDisplayEndHandlers_def
  createCombinedStreamUsingAudioContext_def new_AudioContext_def createMediaStreamDestination_def
  connectAudioSource_def platform_call_def getSupportedMimeType_def candidates_def
  isTypeSupported_query_def new_MediaRecorder_def recorder_start_def logStatus_def resetUI_def
  console_error_def console_warn_def stopMicIfAny_def stopAllTracks_eq

section \<open>Start-up at concrete inputs\<close>

lemma recording_example_reached:
  "startRecordingFlow env_granted page_loaded = Returns () recording_example"
  by (simp add: flow_defs examples) blast

text \<open>
  Claim C9, where the code departs from it. The display has an audio track, so the mixer
  opens an audio context, and then the constructor of the recorder throws. The failure is
  reported in the status and every track is stopped, but \<^verbatim>\<open>cleanupRecordingResources\<close> is
  not called: the audio context stays open, the streams stay in their variables and the
  polling timer stays registered.
\<close>

theorem construction_failure_leaves_context_open:
  "let s' = state_of (startRecordingFlow (env_granted\<lparr>includeMic := False\<rparr>) page_rejecting_encoder)
   in status s' = ''Recording failed: Encoder rejected the stream'' \<and>
      idle_ui s' \<and>
      new_calls page_rejecting_encoder s' =
        [GetDisplayMedia True, AddEndedListener 20, SetInterval 1, NewAudioContext,
         CreateMediaStreamDestination 1, CreateMediaStreamSource 1 [21],
         IsTypeSupported ''video/webm;codecs=vp9,opus'',
         NewMediaRecorder (Some ''video/webm;codecs=vp9,opus''),
         TrackStop 20, TrackStop 30, TrackStop 20, TrackStop 21] \<and>
      liveTracks s' = {} \<and>
      openContexts s' = {1} \<and>
      contextOf (combinedStream s') = [1] \<and>
      displayStream s' \<noteq> None \<and>
      intervals s' = [(1, 20)]"
  by (simp add: flow_defs examples page_rejecting_encoder_def notSupported_def new_calls_def idle_ui_def)
    blast

section \<open>From start-up to the end of the capture\<close>

text \<open>
  From step 3 on, start-up leaves alone what \<^verbatim>\<open>attachDisplayEndHandlers\<close> has set up in
  step 2, whether it succeeds or fails.
\<close>

lemma undisturbed_refl: "undisturbed s s"
  by (simp add: undisturbed_def)

lemma undisturbed_trans: "undisturbed s s1 \<Longrightarrow> undisturbed s1 s2 \<Longrightarrow> undisturbed s s2"
  by (auto simp add: undisturbed_def)

lemma undisturbed_failure:
  "undisturbed s (state_of (block
     [console_error w, logStatus msg, (\<lambda>s. stopAllTracks (combinedStream s) s),
      (\<lambda>s. stopAllTracks (displayStream s) s), stopMicIfAny, resetUI] s))"
  "undisturbed s (state_of (block
     [console_error w, logStatus msg,
      (\<lambda>s. stopAllTracks (displayStream s) s), stopMicIfAny, resetUI] s))"
  by (cases "micStream s";
      simp add: undisturbed_def console_error_def logStatus_def stopAllTracks_eq stopMicIfAny_def
        resetUI_def)+

lemma undisturbed_step7:
  assumes "recorder s = Some r" "\<not> stop_queued r"
  shows "undisturbed s (state_of (flow_from_step7 s))"
proof (cases "throws s RecorderStart")
  case None
  with assms show ?thesis
    by (simp add: flow_from_step7_def recorder_start_def platform_call_def logStatus_def
        undisturbed_def)
next
  case (Some err)
  have "undisturbed s (s\<lparr>calls := calls s @ [RecorderStart]\<rparr>)"
    by (simp add: undisturbed_def)
  then have "undisturbed s (state_of (block
     [console_error ''recorder.start() failed:'',
      logStatus (''Could not start recorder: '' @ errorText err),
      (\<lambda>s. stopAllTracks (combinedStream s) s),
      (\<lambda>s. stopAllTracks (displayStream s) s), stopMicIfAny, resetUI]
     (s\<lparr>calls := calls s @ [RecorderStart]\<rparr>)))"
    by (rule undisturbed_trans) (rule undisturbed_failure)
  with assms Some show ?thesis
    by (simp add: flow_from_step7_def recorder_start_def platform_call_def)
qed

lemma undisturbed_firstSupported: "undisturbed s (state_of (firstSupported env ms s))"
proof (induction ms arbitrary: s)
  case Nil
  show ?case by (simp add: console_warn_def undisturbed_def)
next
  case (Cons m ms)
  show ?case
  proof (cases "isTypeSupported env")
    case None
    with Cons.IH [of s] show ?thesis
      by (simp add: isTypeSupported_query_def)
  next
    case (Some supported)
    show ?thesis
    proof (cases "throws s (IsTypeSupported m)")
      case e: (Some e)
      let ?s1 = "s\<lparr>calls := calls s @ [IsTypeSupported m],
                   console := console s @ [ConsoleWarn ''Error checking MIME type:'']\<rparr>"
      have "undisturbed s ?s1" by (simp add: undisturbed_def)
      from undisturbed_trans [OF this Cons.IH [of ?s1]] Some e show ?thesis
        by (simp add: isTypeSupported_query_def platform_call_def console_warn_def)
    next
      case None
      let ?s1 = "s\<lparr>calls := calls s @ [IsTypeSupported m]\<rparr>"
      have u: "undisturbed s ?s1" by (simp add: undisturbed_def)
      show ?thesis
      proof (cases "supported m")
        case True
        with Some None u show ?thesis
          by (simp add: isTypeSupported_query_def platform_call_def)
      next
        case False
        with undisturbed_trans [OF u Cons.IH [of ?s1]] Some None show ?thesis
          by (simp add: isTypeSupported_query_def platform_call_def)
      qed
    qed
  qed
qed

lemma undisturbed_step5: "undisturbed s (state_of (flow_from_step5 env s))"
proof -
  from getSupportedMimeType_negotiated [of env s]
  obtain s1 where s1: "getSupportedMimeType env s = Returns (negotiated env s) s1"
    by blast
  have "undisturbed s (state_of (getSupportedMimeType env s))"
    unfolding getSupportedMimeType_def by (rule undisturbed_firstSupported)
  then have u1: "undisturbed s s1" by (simp add: s1)
  let ?options = "if negotiated env s \<noteq> [] then Some (negotiated env s) else None"
  let ?s2 = "s1\<lparr>calls := calls s1 @ [NewMediaRecorder ?options]\<rparr>"
  have u2: "undisturbed s1 ?s2" by (simp add: undisturbed_def)
  show ?thesis
  proof (cases "throws s1 (NewMediaRecorder ?options)")
    case None
    let ?r = "\<lparr>rec_state = Inactive, rec_mimeType = ?options, stop_queued = False\<rparr>"
    let ?s3 = "?s2\<lparr>recorder := Some ?r, recordedChunks := []\<rparr>"
    have "undisturbed ?s2 ?s3" by (simp add: undisturbed_def)
    moreover have "undisturbed ?s3 (state_of (flow_from_step7 ?s3))"
      by (rule undisturbed_step7 [of _ ?r]) simp_all
    ultimately have "undisturbed s (state_of (flow_from_step7 ?s3))"
      using u1 u2 by (blast intro: undisturbed_trans)
    with None show ?thesis
      by (simp add: flow_from_step5_def s1 new_MediaRecorder_def platform_call_def)
  next
    case (Some err)
    have "undisturbed ?s2 (state_of (block
              [console_error ''MediaRecorder creation failed:'',
               logStatus (''Recording failed: '' @ errorText err),
               (\<lambda>s. stopAllTracks (combinedStream s) s),
               (\<lambda>s. stopAllTracks (displayStream s) s),
               stopMicIfAny,
               resetUI] ?s2))"
      by (rule undisturbed_failure)
    then have "undisturbed s (state_of (block
              [console_error ''MediaRecorder creation failed:'',
               logStatus (''Recording failed: '' @ errorText err),
               (\<lambda>s. stopAllTracks (combinedStream s) s),
               (\<lambda>s. stopAllTracks (displayStream s) s),
               stopMicIfAny,
               resetUI] ?s2))"
      using u1 u2 by (blast intro: undisturbed_trans)
    with Some show ?thesis
      by (simp add: flow_from_step5_def s1 new_MediaRecorder_def platform_call_def)
  qed
qed

lemma undisturbed_mixer:
  "undisturbed s (state_of (createCombinedStreamUsingAudioContext env display mic s))"
proof (cases display)
  case None
  then show ?thesis by (simp add: createCombinedStreamUsingAudioContext_def undisturbed_refl)
next
  case (Some ds)
  show ?thesis
  proof (cases "getAudioTracks ds \<noteq> [] \<or> audioOf mic \<noteq> []")
    case False
    then have none: "getAudioTracks ds = []" "audioOf mic = []" by simp_all
    show ?thesis
      unfolding Some mixer_without_audio [OF none] by (simp add: undisturbed_refl)
  next
    case True
    show ?thesis
    proof (cases "throws s NewAudioContext")
      case None
      show ?thesis
        unfolding Some mixer_with_audio [OF True None] by (simp add: undisturbed_def)
    next
      case e: (Some e)
      show ?thesis
        unfolding Some mixer_constructor_throws [OF True e] by (simp add: undisturbed_def)
    qed
  qed
qed

lemma undisturbed_step3: "undisturbed s (state_of (flow_from_step3 env s))"
proof (cases "createCombinedStreamUsingAudioContext env (displayStream s) (micStream s) s")
  case (Returns out s1)
  with undisturbed_mixer [of s env "displayStream s" "micStream s"]
  have u1: "undisturbed s s1" by simp
  let ?s2 = "s1\<lparr>combinedStream := Some out, preview_srcObject := Some out, preview_muted := True\<rparr>"
  have "undisturbed s1 ?s2" by (simp add: undisturbed_def)
  with u1 undisturbed_step5 [of ?s2 env]
  have "undisturbed s (state_of (flow_from_step5 env ?s2))"
    by (blast intro: undisturbed_trans)
  with Returns show ?thesis by (simp add: flow_from_step3_def)
next
  case (Throws err s1)
  with undisturbed_mixer [of s env "displayStream s" "micStream s"]
  have u1: "undisturbed s s1" by simp
  have "undisturbed s (state_of (block
            [console_error ''Failed to create combined stream:'',
             logStatus (''Failed to prepare audio mixing: '' @ errorText err),
             (\<lambda>s. stopAllTracks (displayStream s) s),
             stopMicIfAny,
             resetUI] s1))"
    using u1 by (rule undisturbed_trans) (rule undisturbed_failure)
  with Throws show ?thesis by (simp add: flow_from_step3_def)
qed

text \<open>Step 2, when the display capture is granted, up to the beginning of step 3.\<close>

lemma step2_attached:
  assumes "getDisplayMedia env = Inr ds"
  shows "\<exists>s1. flow_from_step2 env s = flow_from_step3 env s1 \<and>
     throws s1 = throws s \<and> recorder s1 = recorder s \<and>
     (case getVideoTracks ds of
        [] \<Rightarrow> displayStream s1 = Some ds
      | v # vs \<Rightarrow>
          displayStream s1 = Some (ds\<lparr>shareEndPollId := Some (Suc (nextId s))\<rparr>) \<and>
          endedListeners s1 = endedListeners s @ [v] \<and>
          intervals s1 = intervals s @ [(Suc (nextId s), v)])"
proof (cases "getVideoTracks ds")
  case Nil
  with assms show ?thesis
    apply (simp add: flow_from_step2_def acquire_def await_def attachDisplayEndHandlers_def
        console_warn_def)
    apply (rule exI, rule conjI, rule refl, simp)
    done
next
  case (Cons v vs)
  with assms show ?thesis
    apply (simp add: flow_from_step2_def acquire_def await_def attachDisplayEndHandlers_def
        console_warn_def)
    apply (rule exI, rule conjI, rule refl, simp)
    done
qed

lemma step2_recording:
  assumes idle: "\<not> recorder_active s"
    and recording: "recorder_active (state_of (flow_from_step2 env s))"
    and display: "displayStream (state_of (flow_from_step2 env s)) = Some d" "getVideoTracks d = v # vs"
  shows "(\<exists>r. recorder (state_of (flow_from_step2 env s)) = Some r \<and> rec_state r \<noteq> Inactive \<and> \<not> stop_queued r) \<and>
     throws (state_of (flow_from_step2 env s)) = throws s \<and>
     endedListeners (state_of (flow_from_step2 env s)) = endedListeners s @ [v] \<and>
     intervals (state_of (flow_from_step2 env s)) = intervals s @ [(Suc (nextId s), v)] \<and>
     pollOf (displayStream (state_of (flow_from_step2 env s))) = [Suc (nextId s)]"
proof (cases "getDisplayMedia env")
  case (Inl err)
  have "recorder (state_of (flow_from_step2 env s)) = recorder s"
    by (simp add: step2_failed [OF Inl])
  with idle recording show ?thesis by (simp add: recorder_active_def)
next
  case (Inr ds)
  let ?s' = "state_of (flow_from_step2 env s)"
  from step2_attached [OF Inr, of s]
  obtain s1 where s1: "flow_from_step2 env s = flow_from_step3 env s1"
    "throws s1 = throws s" "recorder s1 = recorder s"
    and attached: "case getVideoTracks ds of
        [] \<Rightarrow> displayStream s1 = Some ds
      | v # vs \<Rightarrow>
          displayStream s1 = Some (ds\<lparr>shareEndPollId := Some (Suc (nextId s))\<rparr>) \<and>
          endedListeners s1 = endedListeners s @ [v] \<and>
          intervals s1 = intervals s @ [(Suc (nextId s), v)]"
    by blast
  have u: "undisturbed s1 ?s'"
    unfolding s1(1) by (rule undisturbed_step3)
  have "recorder ?s' \<noteq> recorder s"
    using idle recording by (auto simp add: recorder_active_def)
  with u s1(3) obtain r where r: "recorder ?s' = Some r" "\<not> stop_queued r"
    by (auto simp add: undisturbed_def)
  with recording have active: "rec_state r \<noteq> Inactive"
    by (simp add: recorder_active_def)
  show ?thesis
  proof (cases "getVideoTracks ds")
    case Nil
    with attached u display have "getVideoTracks ds = v # vs"
      by (simp add: undisturbed_def)
    with Nil show ?thesis by simp
  next
    case (Cons v' vs')
    with attached u display have "d = ds\<lparr>shareEndPollId := Some (Suc (nextId s))\<rparr>"
      by (simp add: undisturbed_def)
    with display(2) Cons have "v' = v"
      by (simp add: getVideoTracks_def)
    with Cons attached u s1(2) r active show ?thesis
      by (simp add: undisturbed_def pollOf_def)
  qed
qed

lemma start_recording:
  assumes idle: "\<not> recorder_active s0"
    and recording: "recorder_active (state_of (startRecordingFlow env s0))"
    and display: "displayStream (state_of (startRecordingFlow env s0)) = Some d" "getVideoTracks d = v # vs"
  shows "(\<exists>r. recorder (state_of (startRecordingFlow env s0)) = Some r \<and> rec_state r \<noteq> Inactive \<and> \<not> stop_queued r) \<and>
     throws (state_of (startRecordingFlow env s0)) = throws s0 \<and>
     endedListeners (state_of (startRecordingFlow env s0)) = endedListeners s0 @ [v] \<and>
     intervals (state_of (startRecordingFlow env s0)) = intervals s0 @ [(Suc (nextId s0), v)] \<and>
     pollOf (displayStream (state_of (startRecordingFlow env s0))) = [Suc (nextId s0)]"
proof -
  have unchanged: False if "recorder (state_of (startRecordingFlow env s0)) = recorder s0"
    using that idle recording by (simp add: recorder_active_def)
  have from_step2: ?thesis
    if eq: "startRecordingFlow env s0 = flow_from_step2 env s1"
      and same: "recorder s1 = recorder s0" "throws s1 = throws s0"
        "endedListeners s1 = endedListeners s0" "intervals s1 = intervals s0" "nextId s1 = nextId s0"
    for s1
  proof -
    have "\<not> recorder_active s1"
      using idle same(1) by (simp add: recorder_active_def)
    from step2_recording [OF this, of env d v vs] recording display
    show ?thesis
      by (simp add: eq same)
  qed
  show ?thesis
  proof (cases "includeMic env")
    case False
    show ?thesis
      by (rule from_step2 [OF start_without_mic [OF False]]) simp_all
  next
    case True
    show ?thesis
    proof (cases "getUserMedia env")
      case (Inr stream)
      show ?thesis
        by (rule from_step2 [OF start_with_mic [OF True Inr]]) simp_all
    next
      case (Inl err)
      show ?thesis
      proof (cases "permissionState env = Some ''denied''")
        case denied: True
        have "denied_permanently env"
          using True Inl denied by (simp add: denied_permanently_def mic_request_fails_def)
        then have "recorder (state_of (startRecordingFlow env s0)) = recorder s0"
          by (simp add: start_denied)
        then show ?thesis using unchanged by simp
      next
        case other: False
        show ?thesis
        proof (cases "confirm env")
          case False
          have "declines_without_mic env"
            using True Inl other False by (simp add: declines_without_mic_def mic_request_fails_def)
          then have "recorder (state_of (startRecordingFlow env s0)) = recorder s0"
            by (simp add: start_declined)
          then show ?thesis using unchanged by simp
        next
          case yes: True
          show ?thesis
            by (rule from_step2 [OF start_continue_without_mic [OF True Inl other yes]]) simp_all
        qed
      qed
    qed
  qed
qed

text \<open>
  Claim C3. Start is clicked while no recorder is active, and start-up leaves the recorder
  active: a session is recording. Its display stream has a video track, of which \<open>v\<close> is
  the first. Then \<^verbatim>\<open>attachDisplayEndHandlers\<close> has stored a polling timer \<open>p\<close> on the display
  stream, and whatever events are delivered from then on, in whatever order and however
  often (the \<^verbatim>\<open>ended\<close> event, the track ending without it, ticks of the timer, chunks, the
  recorder stopping by itself, the recorder's \<^verbatim>\<open>stop\<close> event, clicks on Stop),
  \<^verbatim>\<open>recorder.stop()\<close> is called at most once and at most one recording is finalised. If
  the end of \<open>v\<close> is detected among them, by the \<^verbatim>\<open>ended\<close> event on \<open>v\<close> or by a tick of \<open>p\<close>
  after \<open>v\<close> has ended, or by both, then exactly one recording is finalised once the
  recorder's \<^verbatim>\<open>stop\<close> event has been delivered, and \<^verbatim>\<open>recorder.stop()\<close> has been called
  exactly once unless the recorder had stopped by itself. Both handlers go through
  \<^verbatim>\<open>stopRecordingFlow\<close>, which is also what a click on Stop runs. The browser is one in
  which \<^verbatim>\<open>recorder.stop()\<close> and \<^verbatim>\<open>clearInterval\<close> do not throw, and which gives a new
  timer an identity that no registered timer has.
\<close>

theorem external_end_stops_once:
  assumes idle: "\<not> recorder_active s0" "map_of (intervals s0) (Suc (nextId s0)) = None"
    and platform: "throws s0 RecorderStop = None" "\<forall>i. throws s0 (ClearInterval i) = None"
    and recording: "s = state_of (startRecordingFlow env s0)" "recorder_active s"
    and display: "displayStream s = Some d" "getVideoTracks d = v # vs"
  shows "\<exists>p. pollOf (displayStream s) = [p] \<and>
           stop_requests (run es s) \<le> stop_requests s + 1 \<and>
           finalizations (run es s) \<le> finalizations s + 1 \<and>
           (detected v p False es \<longrightarrow>
              finalizations (run (es @ [StopEvent]) s) = finalizations s + 1 \<and>
              (RecorderEndsByItself \<notin> set es \<longrightarrow> stop_requests (run es s) = stop_requests s + 1))"
proof -
  define p where "p = Suc (nextId s0)"
  define c where "c = stop_requests s"
  define f where "f = finalizations s"
  from start_recording [of s0 env d v vs] idle(1) recording display
  have started: "\<exists>r. recorder s = Some r \<and> rec_state r \<noteq> Inactive \<and> \<not> stop_queued r"
    "throws s = throws s0" "endedListeners s = endedListeners s0 @ [v]"
    "intervals s = intervals s0 @ [(p, v)]" "pollOf (displayStream s) = [p]"
    by (simp_all add: p_def)
  have "map_of (intervals s) p = Some v"
    using idle(2) by (simp add: started(4) map_add_def p_def)
  then have start: "recording_phase v p c f s"
    using started platform by (simp add: recording_phase_def c_def f_def)
  have counts: "stop_requests (run es s) \<le> stop_requests s + 1 \<and>
           finalizations (run es s) \<le> finalizations s + 1 \<and>
           (detected v p False es \<longrightarrow>
              finalizations (run (es @ [StopEvent]) s) = finalizations s + 1 \<and>
              (RecorderEndsByItself \<notin> set es \<longrightarrow> stop_requests (run es s) = stop_requests s + 1))"
  proof -
    from recording_run [OF start, of False es]
    consider (rec) "recording_phase v p c f (run es s)" "\<not> detected v p False es"
      | (stopping) n where "n = Suc c \<or> n = c \<and> RecorderEndsByItself \<in> set es"
          "stopping_phase n f (run es s)"
      | (finalized) n where "n = Suc c \<or> n = c \<and> RecorderEndsByItself \<in> set es"
          "finalized_phase n f (run es s)"
      by auto
    then show ?thesis
    proof cases
      case rec
      then show ?thesis
        by (simp add: recording_phase_def c_def f_def)
    next
      case stopping
      from stopping_step [OF stopping(2), of StopEvent]
      have "finalized_phase n f (run (es @ [StopEvent]) s)"
        by (simp add: run_append)
      with stopping show ?thesis
        by (auto simp add: stopping_phase_def finalized_phase_def c_def f_def)
    next
      case finalized
      from finalized_step [OF finalized(2), of StopEvent]
      have "finalized_phase n f (run (es @ [StopEvent]) s)"
        by (simp add: run_append)
      with finalized show ?thesis
        by (auto simp add: finalized_phase_def c_def f_def)
    qed
  qed
  with started(5) show ?thesis by blast
qed

text \<open>
  After start-up with everything granted: the timer ticks while the track is live, the
  track ends without the event, the timer ticks, the event is fired as well, and the timer
  ticks again after the recorder's \<^verbatim>\<open>stop\<close> event.
\<close>

theorem external_end_stops_once_witness:
  "\<not> recorder_active page_loaded \<and>
   map_of (intervals page_loaded) (Suc (nextId page_loaded)) = None \<and>
   recorder_active (state_of (startRecordingFlow env_granted page_loaded)) \<and>
   displayStream (state_of (startRecordingFlow env_granted page_loaded)) =
     Some (display_example\<lparr>shareEndPollId := Some 1\<rparr>) \<and>
   getVideoTracks (display_example\<lparr>shareEndPollId := Some 1\<rparr>) = [20] \<and>
   pollOf (displayStream (state_of (startRecordingFlow env_granted page_loaded))) = [1] \<and>
   detected 20 1 False [TimerFires 1, TrackEndsSilently 20, TimerFires 1, TrackEnds 20, StopEvent, TimerFires 1] \<and>
   stop_requests (state_of (startRecordingFlow env_granted page_loaded)) = 0 \<and>
   finalizations (state_of (startRecordingFlow env_granted page_loaded)) = 0 \<and>
   stop_requests
     (run [TimerFires 1, TrackEndsSilently 20, TimerFires 1, TrackEnds 20, StopEvent, TimerFires 1]
        (state_of (startRecordingFlow env_granted page_loaded))) = 1 \<and>
   finalizations
     (run ([TimerFires 1, TrackEndsSilently 20, TimerFires 1, TrackEnds 20, StopEvent, TimerFires 1] @ [StopEvent])
        (state_of (startRecordingFlow env_granted page_loaded))) = 1"
proof -
  let ?s = "state_of (startRecordingFlow env_granted page_loaded)"
  let ?es = "[TimerFires 1, TrackEndsSilently 20, TimerFires 1, TrackEnds 20, StopEvent, TimerFires 1]"
  have s: "?s = recording_example"
    by (simp add: recording_example_reached)
  have h: "\<not> recorder_active page_loaded"
    "map_of (intervals page_loaded) (Suc (nextId page_loaded)) = None"
    "throws page_loaded RecorderStop = None" "\<forall>i. throws page_loaded (ClearInterval i) = None"
    "?s = state_of (startRecordingFlow env_granted page_loaded)"
    "recorder_active ?s"
    "displayStream ?s = Some (display_example\<lparr>shareEndPollId := Some 1\<rparr>)"
    "getVideoTracks (display_example\<lparr>shareEndPollId := Some 1\<rparr>) = [20]"
    and facts: "pollOf (displayStream ?s) = [1]" "stop_requests ?s = 0" "finalizations ?s = 0"
      "detected 20 1 False ?es" "RecorderEndsByItself \<notin> set ?es"
    unfolding s
    by (simp_all add: examples recorder_active_def stop_requests_def finalizations_def)
  from external_end_stops_once [OF h, of ?es]
  show ?thesis
    using h facts by auto
qed

section \<open>The other controllers\<close>

lemma tryConnect_eq:
  "tryConnect c (Some st) s =
     Returns ()
       (s\<lparr>calls := calls s @ [CreateMediaStreamSource c (getAudioTracks st)],
          console := console s @
            (if getAudioTracks st = [] \<or> throws s (CreateMediaStreamSource c (getAudioTracks st)) \<noteq> None
             then [ConsoleWarn ''Could not create MediaStreamSource (maybe no audio tracks):'']
             else [])\<rparr>)"
proof (cases "getAudioTracks st = []")
  case True
  then show ?thesis
    by (simp add: tryConnect_def createMediaStreamSource_def console_warn_def)
next
  case False
  then show ?thesis
    by (cases "throws s (CreateMediaStreamSource c (getAudioTracks st))")
      (simp_all add: tryConnect_def createMediaStreamSource_def platform_call_def console_warn_def)
qed

lemma earlier_mixer_without_audio:
  assumes "getAudioTracks ds = []" "audioOf mic = []"
  shows "earlier_createCombinedStreamUsingAudioContext env (Some ds) mic s =
     Returns \<lparr>tracks = map (Pair Video) (take 1 (getVideoTracks ds)), audioContext = None,
               audioDestination = None, shareEndPollId = None\<rparr> s"
proof -
  have v: "(case getVideoTracks ds of [] \<Rightarrow> [] | videoTrack # _ \<Rightarrow> [(Video, videoTrack)]) =
      map (Pair Video) (take 1 (getVideoTracks ds))"
    by (cases "getVideoTracks ds") simp_all
  from assms show ?thesis
    by (cases mic) (simp_all add: earlier_createCombinedStreamUsingAudioContext_def audioOf_def v)
qed

lemma earlier_mixer_constructor_throws:
  assumes "getAudioTracks ds \<noteq> [] \<or> audioOf mic \<noteq> []" "throws s NewAudioContext = Some e"
  shows "earlier_createCombinedStreamUsingAudioContext env (Some ds) mic s =
     Throws e (s\<lparr>calls := calls s @ [NewAudioContext]\<rparr>)"
  using assms
  by (cases mic)
    (auto simp add: earlier_createCombinedStreamUsingAudioContext_def audioOf_def new_AudioContext_def
      platform_call_def)

lemma earlier_mixer_with_audio:
  assumes "getAudioTracks ds \<noteq> [] \<or> audioOf mic \<noteq> []" "throws s NewAudioContext = None"
  shows "\<exists>s'. earlier_createCombinedStreamUsingAudioContext env (Some ds) mic s =
     Returns
       \<lparr>tracks = map (Pair Video) (take 1 (getVideoTracks ds))
                  @ map (Pair Audio) (take 1 (destinationTracks env)),
        audioContext = Some (nextId s), audioDestination = Some (Suc (nextId s)),
        shareEndPollId = None\<rparr> s' \<and>
     calls s' = calls s @ [NewAudioContext, CreateMediaStreamDestination (nextId s),
                           CreateMediaStreamSource (nextId s) (getAudioTracks ds)]
                  @ (if audioOf mic = [] then [] else [CreateMediaStreamSource (nextId s) (audioOf mic)])"
proof -
  have v: "(case getVideoTracks ds of [] \<Rightarrow> [] | videoTrack # _ \<Rightarrow> [(Video, videoTrack)]) =
      map (Pair Video) (take 1 (getVideoTracks ds))"
    by (cases "getVideoTracks ds") simp_all
  have a: "(case destinationTracks env of [] \<Rightarrow> [] | mixedTrack # _ \<Rightarrow> [(Audio, mixedTrack)]) =
      map (Pair Audio) (take 1 (destinationTracks env))"
    by (cases "destinationTracks env") simp_all
  show ?thesis
  proof (cases mic)
    case None
    with assms show ?thesis
      by (simp add: earlier_createCombinedStreamUsingAudioContext_def new_AudioContext_def
          platform_call_def createMediaStreamDestination_def tryConnect_eq v a audioOf_def)
  next
    case (Some ms)
    show ?thesis
    proof (cases "getAudioTracks ms = []")
      case True
      with Some assms show ?thesis
        by (simp add: earlier_createCombinedStreamUsingAudioContext_def new_AudioContext_def
            platform_call_def createMediaStreamDestination_def tryConnect_eq v a audioOf_def)
    next
      case False
      with Some assms(2) show ?thesis
        by (simp add: earlier_createCombinedStreamUsingAudioContext_def new_AudioContext_def
            platform_call_def createMediaStreamDestination_def tryConnect_eq v a audioOf_def)
    qed
  qed
qed

text \<open>
  The mixer of the earlier \<^verbatim>\<open>popup.js\<close> behaves like the current one in what claim C4
  says: the context is constructed exactly when a source has audio, the function returns
  when the constructor does not throw, and the stream returned has at most one audio
  track. It differs in asking the browser for a source node also for a display without
  audio, and catching the exception.
\<close>

lemma earlier_mixer_context_iff_audio:
  "let hasAudio = (getAudioTracks ds \<noteq> [] \<or> audioOf mic \<noteq> []);
       r = earlier_createCombinedStreamUsingAudioContext env (Some ds) mic s
   in (NewAudioContext \<in> set (new_calls s (state_of r)) \<longleftrightarrow> hasAudio) \<and>
      (\<not> hasAudio \<longrightarrow> (\<exists>out. r = Returns out s \<and> audioContext out = None \<and> getAudioTracks out = [])) \<and>
      (hasAudio \<and> throws s NewAudioContext = None \<longrightarrow>
         (\<exists>out. r = Returns out (state_of r) \<and> audioContext out = Some (nextId s) \<and>
                getAudioTracks out = take 1 (destinationTracks env))) \<and>
      (\<forall>out s''. r = Returns out s'' \<longrightarrow> length (getAudioTracks out) \<le> 1)"
proof (cases "getAudioTracks ds \<noteq> [] \<or> audioOf mic \<noteq> []")
  case False
  then have none: "getAudioTracks ds = []" "audioOf mic = []" by simp_all
  show ?thesis
    unfolding Let_def earlier_mixer_without_audio [OF none]
    using none by (simp add: new_calls_def)
next
  case True
  show ?thesis
  proof (cases "throws s NewAudioContext")
    case None
    from earlier_mixer_with_audio [OF True None, of env] obtain s' where
      r: "earlier_createCombinedStreamUsingAudioContext env (Some ds) mic s =
        Returns
          \<lparr>tracks = map (Pair Video) (take 1 (getVideoTracks ds))
                     @ map (Pair Audio) (take 1 (destinationTracks env)),
           audioContext = Some (nextId s), audioDestination = Some (Suc (nextId s)),
           shareEndPollId = None\<rparr> s'"
      and c: "calls s' = calls s @ [NewAudioContext, CreateMediaStreamDestination (nextId s),
                           CreateMediaStreamSource (nextId s) (getAudioTracks ds)]
                  @ (if audioOf mic = [] then [] else [CreateMediaStreamSource (nextId s) (audioOf mic)])"
      by blast
    show ?thesis
      unfolding Let_def r
      using True None c by (simp add: new_calls_def)
  next
    case (Some e)
    show ?thesis
      unfolding Let_def earlier_mixer_constructor_throws [OF True Some]
      using True Some by (simp add: new_calls_def)
  qed
qed

text \<open>
  \<^verbatim>\<open>startRecorder\<close> of \<^verbatim>\<open>recorder.ts\<close> does not query the encoder: it constructs the
  recorder with the preferred format and, when that throws, without options.
\<close>

lemma construction_falls_back:
  assumes "throws s (NewMediaRecorder (Some m)) = Some e" "throws s (NewMediaRecorder None) = None"
  shows "tryCatch (new_MediaRecorder (Some m) s) (\<lambda>err. new_MediaRecorder None) =
     Returns \<lparr>rec_state = Inactive, rec_mimeType = None, stop_queued = False\<rparr>
       (s\<lparr>calls := calls s @ [NewMediaRecorder (Some m), NewMediaRecorder None]\<rparr>)"
  using assms by (simp add: new_MediaRecorder_def platform_call_def)

text \<open>
  When the constructor throws without options too, \<^verbatim>\<open>startRecorder\<close> throws, and nothing
  it had acquired is released: all four tracks are live and the audio context is open.
\<close>

lemma startRecorder_releases_nothing:
  "startRecorder [] env_granted
     (page_loaded\<lparr>throws := (\<lambda>c. case c of NewMediaRecorder options \<Rightarrow> Some notSupported | _ \<Rightarrow> None)\<rparr>) =
   Throws notSupported
     (page_loaded
        \<lparr>throws := (\<lambda>c. case c of NewMediaRecorder options \<Rightarrow> Some notSupported | _ \<Rightarrow> None),
         liveTracks := {10, 20, 21, 30}, openContexts := {0}, nextId := 2,
         calls := [GetDisplayMedia True, GetUserMedia, NewAudioContext,
                   CreateMediaStreamDestination 0, CreateMediaStreamSource 0 [21],
                   CreateMediaStreamSource 0 [10],
                   NewMediaRecorder (Some ''video/webm; codecs=vp9,opus''),
                   NewMediaRecorder None]\<rparr>)"
  by (simp add: startRecorder_def acquire_def await_def new_AudioContext_def platform_call_def
      createMediaStreamDestination_def createMediaStreamSource_def new_MediaRecorder_def
      audioOf_def examples)
    blast

end
